theory Spec2Isabelle
  imports Main "HOL-Library.Sublist"
begin

section \<open>Data model (database/models.py, config.py)\<close>

text \<open>
  A Python \<open>str\<close> is the list of its code points, so \<open>len\<close> is \<open>length\<close> and
  \<open>k in t\<close> is \<open>sublist k t\<close>; the blank is code point 32.
  Instants are seconds on one UTC time line; \<open>timedelta(days=n)\<close> is \<open>n * 86400\<close>.
  Primary keys are drawn from a per-table sequence that only grows. The tables are
  lists in insertion order. The declared constraints of the schema are part of the
  model: the widths of the \<open>String(n)\<close> columns of \<open>articles\<close>, the unique index on
  \<open>articles.article_id\<close> and the two foreign keys of \<open>notifications\<close>. A value
  too long for its column raises \<open>DataError\<close>, a violated key
  \<open>IntegrityError\<close>. Losing the connection is outside the model.
\<close>

type_synonym str = "nat list"

type_synonym datetime = int

datatype UserTier = PREMIUM | STANDARD

record Article =
  a_id :: nat
  a_article_id :: str
  a_title :: str
  a_author :: str
  a_content :: str
  a_url :: str
  a_post_time :: "datetime option"
  a_created_at :: datetime

record User =
  u_id :: nat
  u_line_user_id :: str
  u_tier :: UserTier
  u_is_active :: bool
  u_created_at :: datetime

record Notification =
  n_id :: nat
  n_user_id :: nat
  n_article_id :: nat
  n_sent_at :: "datetime option"
  n_created_at :: datetime

record database =
  articles :: "Article list"
  users :: "User list"
  notifications :: "Notification list"
  article_seq :: nat
  notification_seq :: nat

record Settings =
  SCHEDULE_START_HOUR :: int
  SCHEDULE_END_HOUR :: int
  RETENTION_DAYS :: int
  keywords_list :: "str list"

datatype py_error = DataError | IntegrityError | AttributeError

section \<open>database/crud.py\<close>

definition get_article_by_ptt_id :: "database \<Rightarrow> str \<Rightarrow> Article option" where
  "get_article_by_ptt_id db article_id = find (\<lambda>a. a_article_id a = article_id) (articles db)"

text \<open>
  Storing a value into a \<open>String(n)\<close> column: PostgreSQL accepts a value of at most
  \<open>n\<close> characters as it is, clips a longer one whose excess characters are all blanks
  to \<open>n\<close> characters, and rejects any other. \<open>db.refresh\<close> reads the stored row
  back, so \<open>create_article\<close> returns the values as stored.
\<close>

definition varchar :: "nat \<Rightarrow> str \<Rightarrow> str option" where
  "varchar n s =
     (if length s \<le> n then Some s
      else if list_all (\<lambda>c. c = 32) (drop n s) then Some (take n s)
      else None)"

definition create_article ::
  "database \<Rightarrow> datetime \<Rightarrow> str \<Rightarrow> str \<Rightarrow> str \<Rightarrow> str \<Rightarrow> str \<Rightarrow> datetime option
     \<Rightarrow> py_error + (Article \<times> database)" where
  "create_article db now article_id title author content url post_time =
     (case (varchar 50 article_id, varchar 255 title, varchar 50 author, varchar 255 url) of
        (Some article_id', Some title', Some author', Some url') \<Rightarrow>
          if article_id' \<in> set (map a_article_id (articles db)) then Inl IntegrityError
          else
            let db_article = \<lparr>a_id = article_seq db, a_article_id = article_id', a_title = title',
                               a_author = author', a_content = content, a_url = url',
                               a_post_time = post_time, a_created_at = now\<rparr>
            in Inr (db_article,
                    db\<lparr>articles := articles db @ [db_article],
                       article_seq := Suc (article_seq db)\<rparr>)
      | _ \<Rightarrow> Inl DataError)"

definition cutoff_date :: "Settings \<Rightarrow> datetime \<Rightarrow> datetime" where
  "cutoff_date cfg now = now - RETENTION_DAYS cfg * 86400"

definition get_articles_to_delete :: "Settings \<Rightarrow> database \<Rightarrow> datetime \<Rightarrow> Article list" where
  "get_articles_to_delete cfg db now =
     filter (\<lambda>a. a_created_at a < cutoff_date cfg now) (articles db)"

text \<open>
  \<open>delete_old_articles\<close> issues two bulk deletes, notifications first. The first
  component of \<open>delete_notifications_of\<close>'s use below is the state between the two
  statements; the pair returned is the row count and the committed state.
\<close>

definition delete_notifications_of :: "nat list \<Rightarrow> database \<Rightarrow> database" where
  "delete_notifications_of article_ids db =
     db\<lparr>notifications := filter (\<lambda>n. n_article_id n \<notin> set article_ids) (notifications db)\<rparr>"

definition delete_articles_in :: "nat list \<Rightarrow> database \<Rightarrow> nat \<times> database" where
  "delete_articles_in article_ids db =
     (length (filter (\<lambda>a. a_id a \<in> set article_ids) (articles db)),
      db\<lparr>articles := filter (\<lambda>a. a_id a \<notin> set article_ids) (articles db)\<rparr>)"

definition delete_old_articles :: "Settings \<Rightarrow> database \<Rightarrow> datetime \<Rightarrow> nat \<times> database" where
  "delete_old_articles cfg db now =
     (let old_articles = filter (\<lambda>a. a_created_at a < cutoff_date cfg now) (articles db);
          article_ids = map a_id old_articles
      in if article_ids \<noteq> [] then delete_articles_in article_ids (delete_notifications_of article_ids db)
         else (0, db))"

definition get_active_users_by_tier :: "database \<Rightarrow> UserTier \<Rightarrow> User list" where
  "get_active_users_by_tier db tier = filter (\<lambda>u. u_tier u = tier \<and> u_is_active u) (users db)"

definition get_all_active_users :: "database \<Rightarrow> User list" where
  "get_all_active_users db = filter u_is_active (users db)"

definition create_notification ::
  "database \<Rightarrow> datetime \<Rightarrow> nat \<Rightarrow> nat \<Rightarrow> py_error + (Notification \<times> database)" where
  "create_notification db now user_id article_id =
     (if user_id \<notin> set (map u_id (users db)) \<or> article_id \<notin> set (map a_id (articles db))
      then Inl IntegrityError
      else
        let db_notification = \<lparr>n_id = notification_seq db, n_user_id = user_id,
                                n_article_id = article_id, n_sent_at = None, n_created_at = now\<rparr>
        in Inr (db_notification,
                db\<lparr>notifications := notifications db @ [db_notification],
                   notification_seq := Suc (notification_seq db)\<rparr>))"

definition get_pending_notifications_for_user :: "database \<Rightarrow> nat \<Rightarrow> Notification list" where
  "get_pending_notifications_for_user db user_id =
     filter (\<lambda>n. n_user_id n = user_id \<and> n_sent_at n = None) (notifications db)"

text \<open>\<open>.first()\<close> picks one row with the id and only that row is written.\<close>

fun mark_first :: "nat \<Rightarrow> datetime \<Rightarrow> Notification list \<Rightarrow> Notification list" where
  "mark_first notification_id now [] = []"
| "mark_first notification_id now (n # ns) =
     (if n_id n = notification_id then n\<lparr>n_sent_at := Some now\<rparr> # ns
      else n # mark_first notification_id now ns)"

definition mark_notification_sent :: "database \<Rightarrow> datetime \<Rightarrow> nat \<Rightarrow> database" where
  "mark_notification_sent db now notification_id =
     db\<lparr>notifications := mark_first notification_id now (notifications db)\<rparr>"

definition mark_notifications_sent :: "database \<Rightarrow> datetime \<Rightarrow> nat list \<Rightarrow> database" where
  "mark_notifications_sent db now notification_ids =
     db\<lparr>notifications :=
          map (\<lambda>n. if n_id n \<in> set notification_ids then n\<lparr>n_sent_at := Some now\<rparr> else n)
              (notifications db)\<rparr>"

definition has_notification_for_article :: "database \<Rightarrow> nat \<Rightarrow> nat \<Rightarrow> bool" where
  "has_notification_for_article db user_id article_id =
     (find (\<lambda>n. n_user_id n = user_id \<and> n_article_id n = article_id) (notifications db) \<noteq> None)"

section \<open>notification/line_bot.py\<close>

text \<open>
  The LINE API is an external collaborator: \<open>line_api to message\<close> says whether
  \<open>push_message\<close> returned (True) or raised (False, caught by the caller's
  \<open>except\<close>). A flex bubble is determined by the four fields it is built from; a
  carousel carries its bubbles and the article count quoted in its alt text. The
  answer is a function of the request, so any assignment of outcomes to distinct
  requests is covered. Every call to the API is appended to an event log.
\<close>

record article_dict =
  d_title :: str
  d_author :: str
  d_url :: str
  d_post_time :: "datetime option"

datatype message = Bubble article_dict | Carousel nat "article_dict list"

datatype event = Fetch | Push str message

type_synonym line_api = "str \<Rightarrow> message \<Rightarrow> bool"

type_synonym world = "database \<times> event list"

definition create_article_flex_message ::
  "str \<Rightarrow> str \<Rightarrow> str \<Rightarrow> datetime option \<Rightarrow> article_dict" where
  "create_article_flex_message title author url post_time =
     \<lparr>d_title = title, d_author = author, d_url = url, d_post_time = post_time\<rparr>"

definition create_batch_flex_message :: "article_dict list \<Rightarrow> article_dict list" where
  "create_batch_flex_message arts =
     map (\<lambda>article. create_article_flex_message (d_title article) (d_author article)
                       (d_url article) (d_post_time article))
         (take 10 arts)"

definition push_article_notification ::
  "line_api \<Rightarrow> str \<Rightarrow> str \<Rightarrow> str \<Rightarrow> str \<Rightarrow> datetime option \<Rightarrow> bool \<times> event list" where
  "push_article_notification api user_id title author url post_time =
     (let flex_content = create_article_flex_message title author url post_time
      in (api user_id (Bubble flex_content), [Push user_id (Bubble flex_content)]))"

definition push_batch_notification ::
  "line_api \<Rightarrow> str \<Rightarrow> article_dict list \<Rightarrow> bool \<times> event list" where
  "push_batch_notification api user_id arts =
     (case arts of
        [] \<Rightarrow> (True, [])
      | [article] \<Rightarrow>
          push_article_notification api user_id (d_title article) (d_author article)
            (d_url article) (d_post_time article)
      | _ \<Rightarrow>
          (let flex_content = create_batch_flex_message arts;
               msg = Carousel (length arts) flex_content
           in (api user_id msg, [Push user_id msg])))"

section \<open>crawler/parser.py\<close>

text \<open>
  A candidate is one dictionary of the feed. A missing or \<open>None\<close> \<open>article_id\<close> is
  falsy like the empty string that \<open>extract_article_id\<close> returns for a URL it cannot
  parse, so the empty string stands for all three.
\<close>

record candidate =
  c_article_id :: str
  c_title :: str
  c_author :: str
  c_content :: str
  c_url :: str
  c_post_time :: "datetime option"

fun keyword_in_title :: "str \<Rightarrow> str list \<Rightarrow> bool" where
  "keyword_in_title title [] = False"
| "keyword_in_title title (keyword # keywords) =
     (if sublist keyword title then True else keyword_in_title title keywords)"

fun filter_by_keywords :: "candidate list \<Rightarrow> str list \<Rightarrow> candidate list" where
  "filter_by_keywords [] keywords = []"
| "filter_by_keywords (article # rest) keywords =
     (if keyword_in_title (c_title article) keywords
      then article # filter_by_keywords rest keywords
      else filter_by_keywords rest keywords)"

section \<open>scheduler/jobs.py\<close>

definition is_within_schedule_hours :: "Settings \<Rightarrow> int \<Rightarrow> bool" where
  "is_within_schedule_hours cfg hour =
     (SCHEDULE_START_HOUR cfg \<le> hour \<and> hour < SCHEDULE_END_HOUR cfg)"

text \<open>
  The loops of \<open>crawl_and_notify\<close>. Every crud call commits, so when a call raises
  the \<open>except\<close> branch has nothing to roll back: the job ends in the state reached
  so far. A loop returns that state with the error, if any.
\<close>

fun premium_loop ::
  "line_api \<Rightarrow> datetime \<Rightarrow> Article \<Rightarrow> User list \<Rightarrow> world \<Rightarrow> py_error option \<times> world" where
  "premium_loop api now db_article [] w = (None, w)"
| "premium_loop api now db_article (user # us) (db, log) =
     (let (success, evs) = push_article_notification api (u_line_user_id user)
                             (a_title db_article) (a_author db_article) (a_url db_article)
                             (a_post_time db_article)
      in if success then
           (case create_notification db now (u_id user) (a_id db_article) of
              Inl e \<Rightarrow> (Some e, (db, log @ evs))
            | Inr (notification, db1) \<Rightarrow>
                premium_loop api now db_article us
                  (mark_notification_sent db1 now (n_id notification), log @ evs))
         else premium_loop api now db_article us (db, log @ evs))"

fun standard_loop ::
  "datetime \<Rightarrow> Article \<Rightarrow> User list \<Rightarrow> world \<Rightarrow> py_error option \<times> world" where
  "standard_loop now db_article [] w = (None, w)"
| "standard_loop now db_article (user # us) (db, log) =
     (if \<not> has_notification_for_article db (u_id user) (a_id db_article) then
        (case create_notification db now (u_id user) (a_id db_article) of
           Inl e \<Rightarrow> (Some e, (db, log))
         | Inr (notification, db1) \<Rightarrow> standard_loop now db_article us (db1, log))
      else standard_loop now db_article us (db, log))"

fun article_loop ::
  "line_api \<Rightarrow> datetime \<Rightarrow> User list \<Rightarrow> User list \<Rightarrow> candidate list \<Rightarrow> world
     \<Rightarrow> py_error option \<times> world" where
  "article_loop api now premium_users standard_users [] w = (None, w)"
| "article_loop api now premium_users standard_users (article_data # rest) (db, log) =
     (if c_article_id article_data = [] then
        article_loop api now premium_users standard_users rest (db, log)
      else
        (case get_article_by_ptt_id db (c_article_id article_data) of
           Some existing \<Rightarrow> article_loop api now premium_users standard_users rest (db, log)
         | None \<Rightarrow>
             (case create_article db now (c_article_id article_data) (c_title article_data)
                     (c_author article_data) (c_content article_data) (c_url article_data)
                     (c_post_time article_data) of
                Inl e \<Rightarrow> (Some e, (db, log))
              | Inr (db_article, db1) \<Rightarrow>
                  (case premium_loop api now db_article premium_users (db1, log) of
                     (Some e, w1) \<Rightarrow> (Some e, w1)
                   | (None, w1) \<Rightarrow>
                       (case standard_loop now db_article standard_users w1 of
                          (Some e, w2) \<Rightarrow> (Some e, w2)
                        | (None, w2) \<Rightarrow>
                            article_loop api now premium_users standard_users rest w2)))))"

text \<open>
  \<open>feed\<close> is what \<open>crawl_new_articles()\<close> would return, \<open>hour\<close> the current hour in
  the configured timezone, \<open>now\<close> the clock reading used for the rows written.
\<close>

definition crawl_and_notify ::
  "Settings \<Rightarrow> line_api \<Rightarrow> candidate list \<Rightarrow> int \<Rightarrow> datetime \<Rightarrow> world \<Rightarrow> world" where
  "crawl_and_notify cfg api feed hour now w =
     (if \<not> is_within_schedule_hours cfg hour then w
      else
        (case w of (db, log) \<Rightarrow>
          (let arts = feed; log1 = log @ [Fetch]
           in if arts = [] then (db, log1)
              else
                (let all_users = get_all_active_users db;
                     premium_users = filter (\<lambda>u. u_tier u = PREMIUM) all_users;
                     standard_users = filter (\<lambda>u. u_tier u = STANDARD) all_users
                 in snd (article_loop api now premium_users standard_users arts (db, log1))))))"

text \<open>
  \<open>notification.article\<close> follows the foreign key; on a dangling key it is \<open>None\<close> and
  reading \<open>article.title\<close> raises \<open>AttributeError\<close>.
\<close>

fun prepare_articles ::
  "database \<Rightarrow> Notification list \<Rightarrow> py_error + (article_dict list \<times> nat list)" where
  "prepare_articles db [] = Inr ([], [])"
| "prepare_articles db (notification # pending) =
     (case find (\<lambda>a. a_id a = n_article_id notification) (articles db) of
        None \<Rightarrow> Inl AttributeError
      | Some article \<Rightarrow>
          (case prepare_articles db pending of
             Inl e \<Rightarrow> Inl e
           | Inr (arts, notification_ids) \<Rightarrow>
               Inr (\<lparr>d_title = a_title article, d_author = a_author article,
                      d_url = a_url article, d_post_time = a_post_time article\<rparr> # arts,
                    n_id notification # notification_ids)))"

fun hourly_loop :: "line_api \<Rightarrow> datetime \<Rightarrow> User list \<Rightarrow> world \<Rightarrow> py_error option \<times> world" where
  "hourly_loop api now [] w = (None, w)"
| "hourly_loop api now (user # us) (db, log) =
     (let pending = get_pending_notifications_for_user db (u_id user)
      in if pending = [] then hourly_loop api now us (db, log)
         else
           (case prepare_articles db pending of
              Inl e \<Rightarrow> (Some e, (db, log))
            | Inr (arts, notification_ids) \<Rightarrow>
                (let (success, evs) = push_batch_notification api (u_line_user_id user) arts
                 in if success
                    then hourly_loop api now us
                           (mark_notifications_sent db now notification_ids, log @ evs)
                    else hourly_loop api now us (db, log @ evs))))"

definition send_hourly_notifications :: "line_api \<Rightarrow> datetime \<Rightarrow> world \<Rightarrow> world" where
  "send_hourly_notifications api now w =
     (case w of (db, log) \<Rightarrow>
        snd (hourly_loop api now (get_active_users_by_tier db STANDARD) (db, log)))"

definition cleanup_old_articles :: "Settings \<Rightarrow> datetime \<Rightarrow> database \<Rightarrow> database" where
  "cleanup_old_articles cfg now db = snd (delete_old_articles cfg db now)"

section \<open>auto_mail/mail_tracker.py\<close>

text \<open>
  The ledger is the table \<open>sent_mails\<close>; rows are only ever appended.
  \<open>sent_at\<close> is filled by SQLite's \<open>CURRENT_TIMESTAMP\<close>, a UTC reading, and
  \<open>DATE(sent_at)\<close> is its UTC calendar day. \<open>date.today()\<close> is the calendar day
  of the host's local clock, \<open>host_utc_offset\<close> seconds ahead of UTC. Calendar days
  are day numbers, which determine the ISO date strings the code compares.
\<close>

record sent_mail =
  m_id :: nat
  m_ptt_id :: str
  m_article_id :: str
  m_article_title :: str
  m_mail_title :: str
  m_sent_at :: datetime
  m_success :: bool

definition sql_date :: "datetime \<Rightarrow> int" where
  "sql_date t = t div 86400"

definition date_today :: "int \<Rightarrow> datetime \<Rightarrow> int" where
  "date_today host_utc_offset now = (now + host_utc_offset) div 86400"

definition has_sent_to :: "sent_mail list \<Rightarrow> str \<Rightarrow> bool" where
  "has_sent_to ledger ptt_id =
     (length (filter (\<lambda>m. m_ptt_id m = ptt_id \<and> m_success m) ledger) > 0)"

definition has_processed_article :: "sent_mail list \<Rightarrow> str \<Rightarrow> bool" where
  "has_processed_article ledger article_id =
     (length (filter (\<lambda>m. m_article_id m = article_id) ledger) > 0)"

definition record_sent ::
  "sent_mail list \<Rightarrow> datetime \<Rightarrow> str \<Rightarrow> str \<Rightarrow> str \<Rightarrow> str \<Rightarrow> bool \<Rightarrow> sent_mail list" where
  "record_sent ledger now ptt_id article_id article_title mail_title success =
     ledger @ [\<lparr>m_id = Suc (length ledger), m_ptt_id = ptt_id, m_article_id = article_id,
                 m_article_title = article_title, m_mail_title = mail_title,
                 m_sent_at = now, m_success = success\<rparr>]"

definition get_today_count :: "int \<Rightarrow> sent_mail list \<Rightarrow> datetime \<Rightarrow> nat" where
  "get_today_count host_utc_offset ledger now =
     (let today = date_today host_utc_offset now
      in length (filter (\<lambda>m. sql_date (m_sent_at m) = today \<and> m_success m) ledger))"

definition can_send_today :: "int \<Rightarrow> int \<Rightarrow> sent_mail list \<Rightarrow> datetime \<Rightarrow> bool" where
  "can_send_today DAILY_LIMIT host_utc_offset ledger now =
     (let today_count = get_today_count host_utc_offset ledger now
      in int today_count < DAILY_LIMIT)"

definition get_remaining_quota :: "int \<Rightarrow> int \<Rightarrow> sent_mail list \<Rightarrow> datetime \<Rightarrow> int" where
  "get_remaining_quota DAILY_LIMIT host_utc_offset ledger now =
     max 0 (DAILY_LIMIT - int (get_today_count host_utc_offset ledger now))"

text \<open>
  The quota as the specification words it: successful sends whose timestamp falls on
  the current date of one timezone, \<open>tz\<close> seconds ahead of UTC (Asia/Taipei is
  \<open>28800\<close>, without daylight saving).
\<close>

definition Asia_Taipei :: int where
  "Asia_Taipei = 28800"

definition todaysSuccessCount_spec :: "int \<Rightarrow> sent_mail list \<Rightarrow> datetime \<Rightarrow> nat" where
  "todaysSuccessCount_spec tz ledger now =
     length (filter (\<lambda>m. m_success m \<and> (m_sent_at m + tz) div 86400 = (now + tz) div 86400) ledger)"

section \<open>auto_mail/auto_mail_service.py\<close>

text \<open>
  The builtin \<open>str.lower\<close> is a parameter of the model, \<open>str_lower\<close>: nothing is
  assumed of it, so what is proved holds of Python's Unicode lower-casing.
  The content generator and the mailer are external collaborators. The generator
  returns a title and a body, either of which may be \<open>None\<close>. The mailer's run for
  one mail ends in a failed login, a returned flag, or an exception.
  \<open>_schedule_mail\<close> starts a thread that sleeps for the drawn delay and then calls
  \<open>_send_mail\<close>; the mails handed to such threads are collected in \<open>scheduled\<close>, and
  the ledger is written only when \<open>_send_mail\<close> runs.
\<close>

fun keyword_in_text :: "(str \<Rightarrow> str) \<Rightarrow> str \<Rightarrow> str list \<Rightarrow> bool" where
  "keyword_in_text str_lower text [] = False"
| "keyword_in_text str_lower text (keyword # keywords) =
     (if sublist (str_lower keyword) text then True
      else keyword_in_text str_lower text keywords)"

definition check_article_keywords :: "(str \<Rightarrow> str) \<Rightarrow> str list \<Rightarrow> candidate \<Rightarrow> bool" where
  "check_article_keywords str_lower keywords article =
     (let title = c_title article; content = c_content article;
          text = str_lower (title @ [32] @ content)
      in keyword_in_text str_lower text keywords)"

record mail_data =
  md_ptt_id :: str
  md_article_id :: str
  md_article_title :: str
  md_mail_title :: str
  md_mail_content :: str

datatype mailer_outcome = LoginFailed | SendReturned bool | SendRaised

type_synonym generator = "str \<Rightarrow> str \<Rightarrow> str \<Rightarrow> str option \<times> str option"

type_synonym mailer = "mail_data \<Rightarrow> mailer_outcome"

record service =
  ledger :: "sent_mail list"
  scheduled :: "mail_data list"

record mail_env =
  DAILY_LIMIT :: int
  host_utc_offset :: int
  mail_keywords :: "str list"
  lower :: "str \<Rightarrow> str"
  generate_mail_content :: generator
  run_mailer :: mailer

definition falsy :: "str option \<Rightarrow> bool" where
  "falsy v = (case v of None \<Rightarrow> True | Some s \<Rightarrow> s = [])"

definition send_mail :: "mail_env \<Rightarrow> datetime \<Rightarrow> mail_data \<Rightarrow> service \<Rightarrow> bool \<times> service" where
  "send_mail env now md st =
     (let success = (case run_mailer env md of
                       LoginFailed \<Rightarrow> False
                     | SendReturned ok \<Rightarrow> ok
                     | SendRaised \<Rightarrow> False)
      in (success,
          st\<lparr>ledger := record_sent (ledger st) now (md_ptt_id md) (md_article_id md)
                          (md_article_title md) (md_mail_title md) success\<rparr>))"

definition schedule_mail :: "mail_data \<Rightarrow> service \<Rightarrow> service" where
  "schedule_mail md st = st\<lparr>scheduled := scheduled st @ [md]\<rparr>"

definition process_article ::
  "mail_env \<Rightarrow> datetime \<Rightarrow> candidate \<Rightarrow> bool \<Rightarrow> service \<Rightarrow> bool \<times> service" where
  "process_article env now article immediate st =
     (let article_id = c_article_id article; author = c_author article;
          title = c_title article; content = c_content article
      in if article_id = [] \<or> author = [] \<or> title = [] then (False, st)
         else if has_processed_article (ledger st) article_id then (False, st)
         else if has_sent_to (ledger st) author then (False, st)
         else if \<not> can_send_today (DAILY_LIMIT env) (host_utc_offset env) (ledger st) now
              then (False, st)
         else
           (case generate_mail_content env title content author of
              (mail_title, mail_content) \<Rightarrow>
                if falsy mail_title \<or> falsy mail_content then (False, st)
                else
                  (let md = \<lparr>md_ptt_id = author, md_article_id = article_id,
                             md_article_title = title, md_mail_title = the mail_title,
                             md_mail_content = the mail_content\<rparr>
                   in if immediate then send_mail env now md st
                      else (True, schedule_mail md st))))"

record stats =
  processed :: nat
  skipped :: nat
  failed :: nat

fun batch_loop ::
  "mail_env \<Rightarrow> datetime \<Rightarrow> bool \<Rightarrow> candidate list \<Rightarrow> stats \<times> service \<Rightarrow> stats \<times> service" where
  "batch_loop env now immediate [] (sts, st) = (sts, st)"
| "batch_loop env now immediate (article # rest) (sts, st) =
     (if \<not> check_article_keywords (lower env) (mail_keywords env) article
      then batch_loop env now immediate rest (sts\<lparr>skipped := skipped sts + 1\<rparr>, st)
      else if \<not> can_send_today (DAILY_LIMIT env) (host_utc_offset env) (ledger st) now
      then (sts, st)
      else
        (case process_article env now article immediate st of
           (True, st') \<Rightarrow> batch_loop env now immediate rest (sts\<lparr>processed := processed sts + 1\<rparr>, st')
         | (False, st') \<Rightarrow> batch_loop env now immediate rest (sts\<lparr>failed := failed sts + 1\<rparr>, st')))"

definition process_articles_batch ::
  "mail_env \<Rightarrow> datetime \<Rightarrow> candidate list \<Rightarrow> bool \<Rightarrow> service \<Rightarrow> stats \<times> service" where
  "process_articles_batch env now arts immediate st =
     batch_loop env now immediate arts (\<lparr>processed = 0, skipped = 0, failed = 0\<rparr>, st)"

section \<open>Well-formed stores and the rows the jobs write\<close>

text \<open>
  \<open>bubble_of\<close> is the message \<open>push_article_notification\<close> sends for a stored
  article. \<open>fits_columns\<close> says that the fields of a candidate are within the widths
  of their columns, and \<open>new_article\<close> is the row \<open>create_article\<close> inserts for such
  a candidate.
  \<open>db_ok\<close> collects what the schema and the sequences guarantee of any stored state:
  \<open>article_id\<close> is unique, user keys are unique, every primary key is below its
  sequence, and the article key of each notification resolves.
\<close>

definition bubble_of :: "Article \<Rightarrow> message" where
  "bubble_of art =
     Bubble (create_article_flex_message (a_title art) (a_author art) (a_url art) (a_post_time art))"

definition fits_columns :: "candidate \<Rightarrow> bool" where
  "fits_columns c \<longleftrightarrow>
     length (c_article_id c) \<le> 50 \<and> length (c_title c) \<le> 255 \<and>
     length (c_author c) \<le> 50 \<and> length (c_url c) \<le> 255"

definition new_article :: "database \<Rightarrow> datetime \<Rightarrow> candidate \<Rightarrow> Article" where
  "new_article db now c =
     \<lparr>a_id = article_seq db, a_article_id = c_article_id c, a_title = c_title c,
      a_author = c_author c, a_content = c_content c, a_url = c_url c,
      a_post_time = c_post_time c, a_created_at = now\<rparr>"

definition db_ok :: "database \<Rightarrow> bool" where
  "db_ok db \<longleftrightarrow>
     distinct (map a_article_id (articles db)) \<and>
     distinct (map u_id (users db)) \<and>
     (\<forall>a \<in> set (articles db). a_id a < article_seq db) \<and>
     (\<forall>n \<in> set (notifications db).
        n_id n < notification_seq db \<and> n_article_id n \<in> set (map a_id (articles db)))"

section \<open>Example data\<close>

text \<open>
  \<open>py\<close> writes a string of ASCII characters as its code points. \<open>ascii_lower\<close> is
  \<open>str.lower\<close> on such strings, the only ones it is applied to below.
\<close>

definition py :: "string \<Rightarrow> str" where
  "py s = map of_char s"

definition ascii_lower :: "str \<Rightarrow> str" where
  "ascii_lower s = map (\<lambda>c. if 65 \<le> c \<and> c \<le> 90 then c + 32 else c) s"

definition example_cfg :: Settings where
  "example_cfg = \<lparr>SCHEDULE_START_HOUR = 7, SCHEDULE_END_HOUR = 20, RETENTION_DAYS = 180,
                   keywords_list = [(py ''loan'')]\<rparr>"

definition example_article :: "nat \<Rightarrow> Article" where
  "example_article i =
     \<lparr>a_id = i, a_article_id = replicate i 77, a_title = (py ''loan''), a_author = (py ''u1''),
      a_content = (py ''x''), a_url = replicate i 117, a_post_time = None, a_created_at = 10\<rparr>"

definition example_pending :: "nat \<Rightarrow> Notification" where
  "example_pending i =
     \<lparr>n_id = i, n_user_id = 2, n_article_id = i, n_sent_at = None, n_created_at = 10\<rparr>"

definition example_users :: "User list" where
  "example_users =
     [\<lparr>u_id = 1, u_line_user_id = (py ''U1''), u_tier = PREMIUM, u_is_active = True, u_created_at = 5\<rparr>,
      \<lparr>u_id = 2, u_line_user_id = (py ''U2''), u_tier = STANDARD, u_is_active = True, u_created_at = 5\<rparr>]"

text \<open>One stored article with its pending notification for the standard user.\<close>

definition example_db :: database where
  "example_db =
     \<lparr>articles = [example_article 1], users = example_users,
      notifications = [example_pending 1], article_seq = 2, notification_seq = 2\<rparr>"

text \<open>Eleven stored articles, each pending for the standard user.\<close>

definition backlog_db :: database where
  "backlog_db =
     \<lparr>articles = map example_article [1..<12], users = example_users,
      notifications = map example_pending [1..<12], article_seq = 12, notification_seq = 12\<rparr>"

definition loan_candidate :: candidate where
  "loan_candidate =
     \<lparr>c_article_id = (py ''M.2.A.2''), c_title = (py ''loan help''), c_author = (py ''u2''), c_content = (py ''y''),
      c_url = (py ''http://x/2''), c_post_time = None\<rparr>"

definition keyless_candidate :: candidate where
  "keyless_candidate =
     \<lparr>c_article_id = [], c_title = (py ''loan news''), c_author = (py ''u3''), c_content = (py ''z''),
      c_url = (py ''http://x/index''), c_post_time = None\<rparr>"

definition second_candidate :: candidate where
  "second_candidate =
     \<lparr>c_article_id = (py ''M.3.A.3''), c_title = (py ''car loan''), c_author = (py ''u3''), c_content = (py ''z''),
      c_url = (py ''http://x/3''), c_post_time = None\<rparr>"

text \<open>A title of 256 characters, one more than its column takes.\<close>

definition long_candidate :: candidate where
  "long_candidate =
     \<lparr>c_article_id = (py ''M.4.A.4''), c_title = replicate 256 120, c_author = (py ''u4''),
      c_content = (py ''w''), c_url = (py ''http://x/4''), c_post_time = None\<rparr>"

definition shouting_candidate :: candidate where
  "shouting_candidate =
     \<lparr>c_article_id = (py ''M.5.A.5''), c_title = (py ''LOAN rates''), c_author = (py ''u5''),
      c_content = (py ''v''), c_url = (py ''http://x/5''), c_post_time = None\<rparr>"

definition body_candidate :: candidate where
  "body_candidate =
     \<lparr>c_article_id = (py ''M.6.A.6''), c_title = (py ''question''), c_author = (py ''u6''),
      c_content = (py ''need a loan''), c_url = (py ''http://x/6''), c_post_time = None\<rparr>"

definition example_env :: mail_env where
  "example_env =
     \<lparr>DAILY_LIMIT = 1, host_utc_offset = 28800, mail_keywords = [(py ''loan'')], lower = ascii_lower,
      generate_mail_content = (\<lambda>title content author. (Some (py ''hello''), Some (py ''body''))),
      run_mailer = (\<lambda>md. SendReturned True)\<rparr>"

section \<open>Properties\<close>

subsection \<open>Effect of the crud operations and of the loops\<close>

lemma length_filter_split:
  "length (filter P xs) + length (filter (\<lambda>x. \<not> P x) xs) = length xs"
  by (induction xs) auto

lemma mark_first_twice: "mark_first i t2 (mark_first i t1 ns) = mark_first i t2 ns"
  by (induction ns) auto

lemma mark_first_absent: "i \<notin> set (map n_id ns) \<Longrightarrow> mark_first i t ns = ns"
  by (induction ns) auto

lemma get_article_by_ptt_id_None:
  "get_article_by_ptt_id db k = None \<longleftrightarrow> k \<notin> set (map a_article_id (articles db))"
  by (auto simp: get_article_by_ptt_id_def find_None_iff)

lemma create_notification_ok:
  "uid \<in> set (map u_id (users db)) \<Longrightarrow> aid \<in> set (map a_id (articles db)) \<Longrightarrow>
   create_notification db now uid aid =
     Inr (\<lparr>n_id = notification_seq db, n_user_id = uid, n_article_id = aid, n_sent_at = None,
           n_created_at = now\<rparr>,
          db\<lparr>notifications := notifications db @
                 [\<lparr>n_id = notification_seq db, n_user_id = uid, n_article_id = aid, n_sent_at = None,
                   n_created_at = now\<rparr>],
             notification_seq := Suc (notification_seq db)\<rparr>)"
  by (simp add: create_notification_def Let_def)

lemma mark_first_fresh:
  "\<forall>n \<in> set ns. n_id n \<noteq> i \<Longrightarrow> n_id m = i \<Longrightarrow>
   mark_first i t (ns @ [m]) = ns @ [m\<lparr>n_sent_at := Some t\<rparr>]"
  by (induction ns) auto

lemma premium_loop_effect:
  assumes "a_id art \<in> set (map a_id (articles db))" "set us \<subseteq> set (users db)"
    "\<forall>n \<in> set (notifications db). n_id n < notification_seq db"
  shows "\<exists>new. premium_loop api now art us (db, log) =
           (None, (db\<lparr>notifications := notifications db @ new,
                      notification_seq := notification_seq db + length new\<rparr>,
                   log @ map (\<lambda>u. Push (u_line_user_id u) (bubble_of art)) us)) \<and>
         (\<forall>n \<in> set new. n_article_id n = a_id art \<and> n_sent_at n = Some now \<and>
              n_user_id n \<in> u_id ` set us \<and> notification_seq db \<le> n_id n \<and>
              n_id n < notification_seq db + length new) \<and>
         (distinct (map u_id us) \<longrightarrow>
            (\<forall>u \<in> set us. length (filter (\<lambda>n. n_user_id n = u_id u) new) =
                 (if api (u_line_user_id u) (bubble_of art) then 1 else 0)))"
  using assms
proof (induction us arbitrary: db log)
  case Nil
  show ?case by (rule exI [of _ "[]"]) simp
next
  case (Cons u us)
  let ?ok = "api (u_line_user_id u) (bubble_of art)"
  let ?ev = "Push (u_line_user_id u) (bubble_of art)"
  show ?case
  proof (cases ?ok)
    case False
    from Cons.prems have p: "a_id art \<in> set (map a_id (articles db))" "set us \<subseteq> set (users db)"
      "\<forall>n \<in> set (notifications db). n_id n < notification_seq db" by auto
    from Cons.IH [OF p, of "log @ [?ev]"] obtain new where
      r: "premium_loop api now art us (db, log @ [?ev]) =
           (None, (db\<lparr>notifications := notifications db @ new,
                      notification_seq := notification_seq db + length new\<rparr>,
                   (log @ [?ev]) @ map (\<lambda>u. Push (u_line_user_id u) (bubble_of art)) us))"
      and a: "\<forall>n \<in> set new. n_article_id n = a_id art \<and> n_sent_at n = Some now \<and>
              n_user_id n \<in> u_id ` set us \<and> notification_seq db \<le> n_id n \<and>
              n_id n < notification_seq db + length new"
      and d: "distinct (map u_id us) \<longrightarrow>
            (\<forall>u \<in> set us. length (filter (\<lambda>n. n_user_id n = u_id u) new) =
                 (if api (u_line_user_id u) (bubble_of art) then 1 else 0))"
      by blast
    have run: "premium_loop api now art (u # us) (db, log) =
           (None, (db\<lparr>notifications := notifications db @ new,
                      notification_seq := notification_seq db + length new\<rparr>,
                   log @ map (\<lambda>u. Push (u_line_user_id u) (bubble_of art)) (u # us)))"
      using False r by (simp add: push_article_notification_def bubble_of_def Let_def)
    have u0: "distinct (map u_id (u # us)) \<Longrightarrow> filter (\<lambda>n. n_user_id n = u_id u) new = []"
    proof -
      assume "distinct (map u_id (u # us))"
      then have "u_id u \<notin> u_id ` set us" by auto
      with a have "\<forall>n \<in> set new. n_user_id n \<noteq> u_id u" by metis
      then show ?thesis by (simp add: filter_empty_conv)
    qed
    show ?thesis
      apply (rule exI [of _ new])
      using run a d u0 False by auto
  next
    case True
    define n0 where "n0 = \<lparr>n_id = notification_seq db, n_user_id = u_id u, n_article_id = a_id art,
       n_sent_at = None, n_created_at = now\<rparr>"
    define db2 where "db2 = db\<lparr>notifications := notifications db @ [n0\<lparr>n_sent_at := Some now\<rparr>],
             notification_seq := Suc (notification_seq db)\<rparr>"
    from Cons.prems have uin: "u_id u \<in> set (map u_id (users db))" by auto
    have cn: "create_notification db now (u_id u) (a_id art) =
        Inr (n0, db\<lparr>notifications := notifications db @ [n0],
             notification_seq := Suc (notification_seq db)\<rparr>)"
      unfolding n0_def using create_notification_ok [OF uin Cons.prems(1)] .
    have fresh: "\<forall>n \<in> set (notifications db). n_id n \<noteq> n_id n0"
      using Cons.prems(3) by (auto simp: n0_def)
    have mk: "mark_notification_sent (db\<lparr>notifications := notifications db @ [n0],
             notification_seq := Suc (notification_seq db)\<rparr>) now (n_id n0) = db2"
      by (simp add: mark_notification_sent_def db2_def mark_first_fresh [OF fresh])
    have p: "a_id art \<in> set (map a_id (articles db2))" "set us \<subseteq> set (users db2)"
      "\<forall>n \<in> set (notifications db2). n_id n < notification_seq db2"
      using Cons.prems by (auto simp: db2_def n0_def less_Suc_eq)
    from Cons.IH [OF p, of "log @ [?ev]"] obtain new where
      r: "premium_loop api now art us (db2, log @ [?ev]) =
           (None, (db2\<lparr>notifications := notifications db2 @ new,
                      notification_seq := notification_seq db2 + length new\<rparr>,
                   (log @ [?ev]) @ map (\<lambda>u. Push (u_line_user_id u) (bubble_of art)) us))"
      and a: "\<forall>n \<in> set new. n_article_id n = a_id art \<and> n_sent_at n = Some now \<and>
              n_user_id n \<in> u_id ` set us \<and> notification_seq db2 \<le> n_id n \<and>
              n_id n < notification_seq db2 + length new"
      and d: "distinct (map u_id us) \<longrightarrow>
            (\<forall>u \<in> set us. length (filter (\<lambda>n. n_user_id n = u_id u) new) =
                 (if api (u_line_user_id u) (bubble_of art) then 1 else 0))"
      by blast
    let ?new = "n0\<lparr>n_sent_at := Some now\<rparr> # new"
    have run: "premium_loop api now art (u # us) (db, log) =
           (None, (db\<lparr>notifications := notifications db @ ?new,
                      notification_seq := notification_seq db + length ?new\<rparr>,
                   log @ map (\<lambda>u. Push (u_line_user_id u) (bubble_of art)) (u # us)))"
      using True r cn mk
      by (simp add: push_article_notification_def bubble_of_def Let_def db2_def)
    have u0: "distinct (map u_id (u # us)) \<Longrightarrow> filter (\<lambda>n. n_user_id n = u_id u) new = []"
    proof -
      assume "distinct (map u_id (u # us))"
      then have "u_id u \<notin> u_id ` set us" by auto
      with a have "\<forall>n \<in> set new. n_user_id n \<noteq> u_id u" by metis
      then show ?thesis by (simp add: filter_empty_conv)
    qed
    have props: "\<forall>n \<in> set ?new. n_article_id n = a_id art \<and> n_sent_at n = Some now \<and>
              n_user_id n \<in> u_id ` set (u # us) \<and> notification_seq db \<le> n_id n \<and>
              n_id n < notification_seq db + length ?new"
      using a by (auto simp: n0_def db2_def)
    have dist: "distinct (map u_id (u # us)) \<longrightarrow>
            (\<forall>v \<in> set (u # us). length (filter (\<lambda>n. n_user_id n = u_id v) ?new) =
                 (if api (u_line_user_id v) (bubble_of art) then 1 else 0))"
      using d u0 True by (auto simp: n0_def)
    show ?thesis
      apply (rule exI [of _ ?new])
      using run props dist by blast
  qed
qed


lemma standard_loop_effect:
  assumes "a_id art \<in> set (map a_id (articles db))" "set us \<subseteq> set (users db)"
  shows "\<exists>new. standard_loop now art us (db, log) =
           (None, (db\<lparr>notifications := notifications db @ new,
                      notification_seq := notification_seq db + length new\<rparr>, log)) \<and>
         (\<forall>n \<in> set new. n_article_id n = a_id art \<and> n_sent_at n = None \<and>
              n_user_id n \<in> u_id ` set us \<and> notification_seq db \<le> n_id n \<and>
              n_id n < notification_seq db + length new)"
  using assms
proof (induction us arbitrary: db)
  case Nil
  show ?case by (rule exI [of _ "[]"]) simp
next
  case (Cons u us)
  show ?case
  proof (cases "has_notification_for_article db (u_id u) (a_id art)")
    case True
    from Cons.prems have p: "a_id art \<in> set (map a_id (articles db))" "set us \<subseteq> set (users db)"
      by auto
    from Cons.IH [OF p] obtain new where
      r: "standard_loop now art us (db, log) =
           (None, (db\<lparr>notifications := notifications db @ new,
                      notification_seq := notification_seq db + length new\<rparr>, log))"
      and a: "\<forall>n \<in> set new. n_article_id n = a_id art \<and> n_sent_at n = None \<and>
              n_user_id n \<in> u_id ` set us \<and> notification_seq db \<le> n_id n \<and>
              n_id n < notification_seq db + length new"
      by blast
    show ?thesis
      apply (rule exI [of _ new])
      using True r a by auto
  next
    case False
    define n0 where "n0 = \<lparr>n_id = notification_seq db, n_user_id = u_id u, n_article_id = a_id art,
       n_sent_at = None, n_created_at = now\<rparr>"
    define db1 where "db1 = db\<lparr>notifications := notifications db @ [n0],
             notification_seq := Suc (notification_seq db)\<rparr>"
    from Cons.prems have uin: "u_id u \<in> set (map u_id (users db))" by auto
    have cn: "create_notification db now (u_id u) (a_id art) = Inr (n0, db1)"
      unfolding n0_def db1_def using create_notification_ok [OF uin Cons.prems(1)] .
    have p: "a_id art \<in> set (map a_id (articles db1))" "set us \<subseteq> set (users db1)"
      using Cons.prems by (auto simp: db1_def)
    from Cons.IH [OF p] obtain new where
      r: "standard_loop now art us (db1, log) =
           (None, (db1\<lparr>notifications := notifications db1 @ new,
                      notification_seq := notification_seq db1 + length new\<rparr>, log))"
      and a: "\<forall>n \<in> set new. n_article_id n = a_id art \<and> n_sent_at n = None \<and>
              n_user_id n \<in> u_id ` set us \<and> notification_seq db1 \<le> n_id n \<and>
              n_id n < notification_seq db1 + length new"
      by blast
    have run: "standard_loop now art (u # us) (db, log) =
           (None, (db\<lparr>notifications := notifications db @ (n0 # new),
                      notification_seq := notification_seq db + length (n0 # new)\<rparr>, log))"
      using False r cn by (simp add: db1_def)
    have props: "\<forall>n \<in> set (n0 # new). n_article_id n = a_id art \<and> n_sent_at n = None \<and>
              n_user_id n \<in> u_id ` set (u # us) \<and> notification_seq db \<le> n_id n \<and>
              n_id n < notification_seq db + length (n0 # new)"
      using a by (auto simp: n0_def db1_def)
    show ?thesis
      apply (rule exI [of _ "n0 # new"])
      using run props by blast
  qed
qed

lemma article_loop_skip:
  "c_article_id c = [] \<or> c_article_id c \<in> set (map a_article_id (articles db)) \<Longrightarrow>
   article_loop api now prem std (c # cs) (db, log) = article_loop api now prem std cs (db, log)"
  using get_article_by_ptt_id_None [of db "c_article_id c"]
  by (cases "get_article_by_ptt_id db (c_article_id c)") auto

lemma varchar_fits: "length s \<le> n \<Longrightarrow> varchar n s = Some s"
  by (simp add: varchar_def)

lemma varchar_nonempty: "varchar n s = Some s' \<Longrightarrow> s \<noteq> [] \<Longrightarrow> 0 < n \<Longrightarrow> s' \<noteq> []"
  by (auto simp: varchar_def split: if_splits)

lemma create_article_ok:
  "fits_columns c \<Longrightarrow> c_article_id c \<notin> set (map a_article_id (articles db)) \<Longrightarrow>
   create_article db now (c_article_id c) (c_title c) (c_author c) (c_content c) (c_url c)
     (c_post_time c) =
   Inr (new_article db now c,
        db\<lparr>articles := articles db @ [new_article db now c], article_seq := Suc (article_seq db)\<rparr>)"
  by (simp add: create_article_def new_article_def fits_columns_def varchar_fits Let_def)

lemma create_article_Inr:
  assumes "create_article db now k t au co u pt = Inr (art, db1)"
  shows "db1 = db\<lparr>articles := articles db @ [art], article_seq := Suc (article_seq db)\<rparr>"
    and "a_id art = article_seq db"
    and "a_article_id art \<notin> set (map a_article_id (articles db))"
    and "k \<noteq> [] \<Longrightarrow> a_article_id art \<noteq> []"
proof -
  from assms obtain k' t' au' u' where
    v: "varchar 50 k = Some k'" "varchar 255 t = Some t'" "varchar 50 au = Some au'"
       "varchar 255 u = Some u'"
    by (auto simp: create_article_def split: option.splits)
  from assms v have nk: "k' \<notin> set (map a_article_id (articles db))"
    by (auto simp: create_article_def split: if_splits)
  from assms v nk have art: "art = \<lparr>a_id = article_seq db, a_article_id = k', a_title = t',
       a_author = au', a_content = co, a_url = u', a_post_time = pt, a_created_at = now\<rparr>"
    and d: "db1 = db\<lparr>articles := articles db @ [art], article_seq := Suc (article_seq db)\<rparr>"
    by (auto simp: create_article_def Let_def)
  show "db1 = db\<lparr>articles := articles db @ [art], article_seq := Suc (article_seq db)\<rparr>"
    by (rule d)
  show "a_id art = article_seq db" by (simp add: art)
  show "a_article_id art \<notin> set (map a_article_id (articles db))" using nk by (simp add: art)
  show "a_article_id art \<noteq> []" if "k \<noteq> []"
    using varchar_nonempty [OF v(1) that] by (simp add: art)
qed

lemma article_loop_abort:
  assumes "c_article_id c \<noteq> []" "c_article_id c \<notin> set (map a_article_id (articles db))"
    and "create_article db now (c_article_id c) (c_title c) (c_author c) (c_content c) (c_url c)
           (c_post_time c) = Inl e"
  shows "article_loop api now prem std (c # cs) (db, log) = (Some e, (db, log))"
  using assms get_article_by_ptt_id_None [of db "c_article_id c"] by simp

lemma article_loop_create:
  assumes key: "c_article_id c \<noteq> []" "c_article_id c \<notin> set (map a_article_id (articles db))"
    and cr: "create_article db now (c_article_id c) (c_title c) (c_author c) (c_content c) (c_url c)
           (c_post_time c) = Inr (art, db1)"
    and sub: "set prem \<subseteq> set (users db)" "set std \<subseteq> set (users db)"
    and ids: "\<forall>n \<in> set (notifications db). n_id n < notification_seq db"
  shows "\<exists>newn. article_loop api now prem std (c # cs) (db, log) =
           article_loop api now prem std cs
             (db\<lparr>articles := articles db @ [art],
                 article_seq := Suc (article_seq db),
                 notifications := notifications db @ newn,
                 notification_seq := notification_seq db + length newn\<rparr>,
              log @ map (\<lambda>u. Push (u_line_user_id u) (bubble_of art)) prem) \<and>
         (\<forall>n \<in> set newn. n_article_id n = article_seq db \<and> notification_seq db \<le> n_id n \<and>
              n_id n < notification_seq db + length newn) \<and>
         (distinct (map u_id prem) \<and> u_id ` set prem \<inter> u_id ` set std = {} \<longrightarrow>
            (\<forall>u \<in> set prem.
               length (filter (\<lambda>n. n_user_id n = u_id u) newn) =
                 (if api (u_line_user_id u) (bubble_of art) then 1 else 0) \<and>
               (\<forall>n \<in> set newn. n_user_id n = u_id u \<longrightarrow> n_sent_at n = Some now)))"
proof -
  note c1 = create_article_Inr [OF cr]
  have db1: "db1 = db\<lparr>articles := articles db @ [art], article_seq := Suc (article_seq db)\<rparr>"
    by (rule c1(1))
  have aid: "a_id art = article_seq db" by (rule c1(2))
  have p1: "a_id art \<in> set (map a_id (articles db1))" "set prem \<subseteq> set (users db1)"
    "\<forall>n \<in> set (notifications db1). n_id n < notification_seq db1"
    using sub ids by (auto simp: db1)
  from premium_loop_effect [OF p1, of api now log] obtain newp where
    rp: "premium_loop api now art prem (db1, log) =
           (None, (db1\<lparr>notifications := notifications db1 @ newp,
                      notification_seq := notification_seq db1 + length newp\<rparr>,
                   log @ map (\<lambda>u. Push (u_line_user_id u) (bubble_of art)) prem))"
    and ap: "\<forall>n \<in> set newp. n_article_id n = a_id art \<and> n_sent_at n = Some now \<and>
              n_user_id n \<in> u_id ` set prem \<and> notification_seq db1 \<le> n_id n \<and>
              n_id n < notification_seq db1 + length newp"
    and dp: "distinct (map u_id prem) \<longrightarrow>
            (\<forall>u \<in> set prem. length (filter (\<lambda>n. n_user_id n = u_id u) newp) =
                 (if api (u_line_user_id u) (bubble_of art) then 1 else 0))"
    by blast
  define db2 where "db2 = db1\<lparr>notifications := notifications db1 @ newp,
                      notification_seq := notification_seq db1 + length newp\<rparr>"
  have p2: "a_id art \<in> set (map a_id (articles db2))" "set std \<subseteq> set (users db2)"
    using sub by (auto simp: db1 db2_def)
  from standard_loop_effect [OF p2, of now "log @ map (\<lambda>u. Push (u_line_user_id u) (bubble_of art)) prem"]
  obtain news where
    rs: "standard_loop now art std (db2, log @ map (\<lambda>u. Push (u_line_user_id u) (bubble_of art)) prem) =
           (None, (db2\<lparr>notifications := notifications db2 @ news,
                      notification_seq := notification_seq db2 + length news\<rparr>,
                   log @ map (\<lambda>u. Push (u_line_user_id u) (bubble_of art)) prem))"
    and as: "\<forall>n \<in> set news. n_article_id n = a_id art \<and> n_sent_at n = None \<and>
              n_user_id n \<in> u_id ` set std \<and> notification_seq db2 \<le> n_id n \<and>
              n_id n < notification_seq db2 + length news"
    by blast
  have seqs: "notification_seq db1 = notification_seq db"
    "notification_seq db2 = notification_seq db + length newp"
    by (simp_all add: db1 db2_def)
  have fin: "db2\<lparr>notifications := notifications db2 @ news,
                      notification_seq := notification_seq db2 + length news\<rparr> =
             db\<lparr>articles := articles db @ [art],
                 article_seq := Suc (article_seq db),
                 notifications := notifications db @ (newp @ news),
                 notification_seq := notification_seq db + length (newp @ news)\<rparr>"
    by (simp add: db1 db2_def add.assoc)
  have run: "article_loop api now prem std (c # cs) (db, log) =
           article_loop api now prem std cs
             (db\<lparr>articles := articles db @ [art],
                 article_seq := Suc (article_seq db),
                 notifications := notifications db @ (newp @ news),
                 notification_seq := notification_seq db + length (newp @ news)\<rparr>,
              log @ map (\<lambda>u. Push (u_line_user_id u) (bubble_of art)) prem)"
    using key get_article_by_ptt_id_None [of db "c_article_id c"] cr rp rs fin
    by (simp add: db2_def [symmetric])
  have props: "\<forall>n \<in> set (newp @ news). n_article_id n = article_seq db \<and>
              notification_seq db \<le> n_id n \<and>
              n_id n < notification_seq db + length (newp @ news)"
    using ap as seqs aid by auto
  have prem_props: "\<forall>u \<in> set prem.
               length (filter (\<lambda>n. n_user_id n = u_id u) (newp @ news)) =
                 (if api (u_line_user_id u) (bubble_of art) then 1 else 0) \<and>
               (\<forall>n \<in> set (newp @ news). n_user_id n = u_id u \<longrightarrow> n_sent_at n = Some now)"
    if dd: "distinct (map u_id prem)" "u_id ` set prem \<inter> u_id ` set std = {}"
  proof
    fix u assume u: "u \<in> set prem"
    then have "u_id u \<notin> u_id ` set std" using dd(2) by auto
    with as have no: "\<forall>n \<in> set news. n_user_id n \<noteq> u_id u" by metis
    then have "filter (\<lambda>n. n_user_id n = u_id u) news = []" by (simp add: filter_empty_conv)
    with dp dd(1) u no ap
    show "length (filter (\<lambda>n. n_user_id n = u_id u) (newp @ news)) =
                 (if api (u_line_user_id u) (bubble_of art) then 1 else 0) \<and>
               (\<forall>n \<in> set (newp @ news). n_user_id n = u_id u \<longrightarrow> n_sent_at n = Some now)"
      by auto
  qed
  show ?thesis
    apply (rule exI [of _ "newp @ news"])
    using run props prem_props by blast
qed

lemma db_ok_create:
  assumes ok: "db_ok db" and key: "a_article_id art \<notin> set (map a_article_id (articles db))"
    and art: "a_id art = article_seq db"
    and newn: "\<forall>n \<in> set newn. n_article_id n = article_seq db \<and>
                 n_id n < notification_seq db + length newn"
  shows "db_ok (db\<lparr>articles := articles db @ [art], article_seq := Suc (article_seq db),
                   notifications := notifications db @ newn,
                   notification_seq := notification_seq db + length newn\<rparr>)"
  using assms unfolding db_ok_def by (auto simp: less_Suc_eq trans_less_add1)

lemma article_loop_effect:
  assumes "db_ok db" "set prem \<subseteq> set (users db)" "set std \<subseteq> set (users db)"
    "distinct (map u_id prem)" "u_id ` set prem \<inter> u_id ` set std = {}"
  shows "\<exists>err newa newn evs.
     article_loop api now prem std cs (db, log) =
       (err, (db\<lparr>articles := articles db @ newa, article_seq := article_seq db + length newa,
                  notifications := notifications db @ newn,
                  notification_seq := notification_seq db + length newn\<rparr>, log @ evs)) \<and>
     db_ok (db\<lparr>articles := articles db @ newa, article_seq := article_seq db + length newa,
                  notifications := notifications db @ newn,
                  notification_seq := notification_seq db + length newn\<rparr>) \<and>
     (\<forall>a \<in> set newa. article_seq db \<le> a_id a \<and> a_article_id a \<noteq> []) \<and>
     (\<forall>n \<in> set newn. article_seq db \<le> n_article_id n) \<and>
     ((\<forall>c \<in> set cs. fits_columns c) \<longrightarrow>
        err = None \<and>
        (\<forall>c \<in> set cs. c_article_id c \<noteq> [] \<longrightarrow>
           c_article_id c \<in> set (map a_article_id (articles db @ newa)))) \<and>
     (\<forall>a \<in> set newa. \<forall>u \<in> set prem.
         Push (u_line_user_id u) (bubble_of a) \<in> set evs \<and>
         length (filter (\<lambda>n. n_user_id n = u_id u \<and> n_article_id n = a_id a) newn) =
           (if api (u_line_user_id u) (bubble_of a) then 1 else 0) \<and>
         (\<forall>n \<in> set newn. n_user_id n = u_id u \<and> n_article_id n = a_id a \<longrightarrow>
              n_sent_at n = Some now))"
  using assms
proof (induction cs arbitrary: db log)
  case Nil
  show ?case
    apply (rule exI [of _ None], rule exI [of _ "[]"], rule exI [of _ "[]"], rule exI [of _ "[]"])
    using Nil.prems(1) by simp
next
  case (Cons c cs)
  show ?case
  proof (cases "c_article_id c = [] \<or> c_article_id c \<in> set (map a_article_id (articles db))")
    case True
    from Cons.IH [OF Cons.prems, of log] obtain err newa newn evs where
      r: "article_loop api now prem std cs (db, log) =
       (err, (db\<lparr>articles := articles db @ newa, article_seq := article_seq db + length newa,
                  notifications := notifications db @ newn,
                  notification_seq := notification_seq db + length newn\<rparr>, log @ evs))"
      and rest: "db_ok (db\<lparr>articles := articles db @ newa, article_seq := article_seq db + length newa,
                  notifications := notifications db @ newn,
                  notification_seq := notification_seq db + length newn\<rparr>)"
        "\<forall>a \<in> set newa. article_seq db \<le> a_id a \<and> a_article_id a \<noteq> []"
        "\<forall>n \<in> set newn. article_seq db \<le> n_article_id n"
        "(\<forall>c \<in> set cs. fits_columns c) \<longrightarrow>
           err = None \<and>
           (\<forall>c \<in> set cs. c_article_id c \<noteq> [] \<longrightarrow>
              c_article_id c \<in> set (map a_article_id (articles db @ newa)))"
        "\<forall>a \<in> set newa. \<forall>u \<in> set prem.
         Push (u_line_user_id u) (bubble_of a) \<in> set evs \<and>
         length (filter (\<lambda>n. n_user_id n = u_id u \<and> n_article_id n = a_id a) newn) =
           (if api (u_line_user_id u) (bubble_of a) then 1 else 0) \<and>
         (\<forall>n \<in> set newn. n_user_id n = u_id u \<and> n_article_id n = a_id a \<longrightarrow>
              n_sent_at n = Some now)"
      by blast
    have keys: "(\<forall>c' \<in> set (c # cs). fits_columns c') \<longrightarrow>
           err = None \<and>
           (\<forall>c' \<in> set (c # cs). c_article_id c' \<noteq> [] \<longrightarrow>
              c_article_id c' \<in> set (map a_article_id (articles db @ newa)))"
      using True rest(4) by auto
    show ?thesis
      apply (rule exI [of _ err], rule exI [of _ newa], rule exI [of _ newn], rule exI [of _ evs])
      using article_loop_skip [OF True] r rest(1,2,3,5) keys by simp
  next
    case False
    then have key: "c_article_id c \<noteq> []" "c_article_id c \<notin> set (map a_article_id (articles db))"
      by auto
    show ?thesis
    proof (cases "create_article db now (c_article_id c) (c_title c) (c_author c) (c_content c)
                    (c_url c) (c_post_time c)")
      case (Inl e)
      have nf: "\<not> fits_columns c" using create_article_ok [OF _ key(2), of now] Inl by auto
      show ?thesis
        apply (rule exI [of _ "Some e"], rule exI [of _ "[]"], rule exI [of _ "[]"],
               rule exI [of _ "[]"])
        using article_loop_abort [OF key Inl] Cons.prems(1) nf by simp
    next
      case (Inr r)
      obtain art db1 where r: "r = (art, db1)" by (cases r)
      note cr = Inr [unfolded r]
      note c1 = create_article_Inr [OF cr]
      have aid: "a_id art = article_seq db" by (rule c1(2))
      have akey: "a_article_id art \<noteq> []" using c1(4) key(1) by simp
      have afit: "a_article_id art = c_article_id c" if "fits_columns c"
        using create_article_ok [OF that key(2), of now] cr by (simp add: new_article_def)
      have ids: "\<forall>n \<in> set (notifications db). n_id n < notification_seq db"
        and fk: "\<forall>n \<in> set (notifications db). n_article_id n < article_seq db"
        using Cons.prems(1) unfolding db_ok_def by auto
      from article_loop_create [OF key cr Cons.prems(2,3) ids, where api = api and cs = cs and log = log]
        Cons.prems(4,5)
      obtain newn0 where
        step: "article_loop api now prem std (c # cs) (db, log) =
           article_loop api now prem std cs
             (db\<lparr>articles := articles db @ [art],
                 article_seq := Suc (article_seq db),
                 notifications := notifications db @ newn0,
                 notification_seq := notification_seq db + length newn0\<rparr>,
              log @ map (\<lambda>u. Push (u_line_user_id u) (bubble_of art)) prem)"
        and n0: "\<forall>n \<in> set newn0. n_article_id n = article_seq db \<and> notification_seq db \<le> n_id n \<and>
              n_id n < notification_seq db + length newn0"
        and p0: "\<forall>u \<in> set prem.
               length (filter (\<lambda>n. n_user_id n = u_id u) newn0) =
                 (if api (u_line_user_id u) (bubble_of art) then 1 else 0) \<and>
               (\<forall>n \<in> set newn0. n_user_id n = u_id u \<longrightarrow> n_sent_at n = Some now)"
        by blast
      define db3 where "db3 = db\<lparr>articles := articles db @ [art],
                 article_seq := Suc (article_seq db),
                 notifications := notifications db @ newn0,
                 notification_seq := notification_seq db + length newn0\<rparr>"
      define log3 where "log3 = log @ map (\<lambda>u. Push (u_line_user_id u) (bubble_of art)) prem"
      have ok3: "db_ok db3"
        unfolding db3_def using db_ok_create [OF Cons.prems(1) c1(3) aid] n0 by blast
      have sub3: "set prem \<subseteq> set (users db3)" "set std \<subseteq> set (users db3)"
        using Cons.prems(2,3) by (simp_all add: db3_def)
      from Cons.IH [OF ok3 sub3 Cons.prems(4,5), of log3] obtain err newa newn evs where
        r: "article_loop api now prem std cs (db3, log3) =
         (err, (db3\<lparr>articles := articles db3 @ newa, article_seq := article_seq db3 + length newa,
                  notifications := notifications db3 @ newn,
                  notification_seq := notification_seq db3 + length newn\<rparr>, log3 @ evs))"
        and rest: "db_ok (db3\<lparr>articles := articles db3 @ newa, article_seq := article_seq db3 + length newa,
                  notifications := notifications db3 @ newn,
                  notification_seq := notification_seq db3 + length newn\<rparr>)"
          "\<forall>a \<in> set newa. article_seq db3 \<le> a_id a \<and> a_article_id a \<noteq> []"
          "\<forall>n \<in> set newn. article_seq db3 \<le> n_article_id n"
          "(\<forall>c \<in> set cs. fits_columns c) \<longrightarrow>
             err = None \<and>
             (\<forall>c \<in> set cs. c_article_id c \<noteq> [] \<longrightarrow>
                c_article_id c \<in> set (map a_article_id (articles db3 @ newa)))"
          "\<forall>a \<in> set newa. \<forall>u \<in> set prem.
           Push (u_line_user_id u) (bubble_of a) \<in> set evs \<and>
           length (filter (\<lambda>n. n_user_id n = u_id u \<and> n_article_id n = a_id a) newn) =
             (if api (u_line_user_id u) (bubble_of a) then 1 else 0) \<and>
           (\<forall>n \<in> set newn. n_user_id n = u_id u \<and> n_article_id n = a_id a \<longrightarrow>
                n_sent_at n = Some now)"
        by blast
      let ?newa = "art # newa" and ?newn = "newn0 @ newn"
      let ?evs = "map (\<lambda>u. Push (u_line_user_id u) (bubble_of art)) prem @ evs"
      let ?db' = "db\<lparr>articles := articles db @ ?newa, article_seq := article_seq db + length ?newa,
                  notifications := notifications db @ ?newn,
                  notification_seq := notification_seq db + length ?newn\<rparr>"
      have eq: "db3\<lparr>articles := articles db3 @ newa, article_seq := article_seq db3 + length newa,
                  notifications := notifications db3 @ newn,
                  notification_seq := notification_seq db3 + length newn\<rparr> = ?db'"
        by (simp add: db3_def)
      have run: "article_loop api now prem std (c # cs) (db, log) = (err, (?db', log @ ?evs))"
        using step r eq by (simp add: db3_def [symmetric] log3_def [symmetric])
      have ok': "db_ok ?db'" using rest(1) eq by simp
      have s3: "article_seq db3 = Suc (article_seq db)" by (simp add: db3_def)
      have a1: "\<forall>a \<in> set ?newa. article_seq db \<le> a_id a \<and> a_article_id a \<noteq> []"
        using rest(2) aid akey s3 by auto
      have a2: "\<forall>n \<in> set ?newn. article_seq db \<le> n_article_id n"
        using rest(3) n0 s3 by auto
      have a3: "(\<forall>c' \<in> set (c # cs). fits_columns c') \<longrightarrow>
           err = None \<and>
           (\<forall>c' \<in> set (c # cs). c_article_id c' \<noteq> [] \<longrightarrow>
              c_article_id c' \<in> set (map a_article_id (articles db @ ?newa)))"
        using rest(4) afit by (auto simp: db3_def)
      have a4: "Push (u_line_user_id u) (bubble_of a) \<in> set ?evs \<and>
         length (filter (\<lambda>n. n_user_id n = u_id u \<and> n_article_id n = a_id a) ?newn) =
           (if api (u_line_user_id u) (bubble_of a) then 1 else 0) \<and>
         (\<forall>n \<in> set ?newn. n_user_id n = u_id u \<and> n_article_id n = a_id a \<longrightarrow>
              n_sent_at n = Some now)"
        if a: "a \<in> set ?newa" and u: "u \<in> set prem" for a u
      proof (cases "a = art")
        case True
        have "\<forall>n \<in> set newn. n_article_id n \<noteq> a_id a"
          using rest(3) s3 aid True by auto
        then have f2: "filter (\<lambda>n. n_user_id n = u_id u \<and> n_article_id n = a_id a) newn = []"
          and g2: "\<forall>n \<in> set newn. \<not> (n_user_id n = u_id u \<and> n_article_id n = a_id a)"
          by (auto simp: filter_empty_conv)
        have f1: "filter (\<lambda>n. n_user_id n = u_id u \<and> n_article_id n = a_id a) newn0 =
                filter (\<lambda>n. n_user_id n = u_id u) newn0"
          using n0 aid True by (auto intro: filter_cong)
        show ?thesis using p0 u f1 f2 g2 True by auto
      next
        case False
        with a have an: "a \<in> set newa" by auto
        then have "Suc (article_seq db) \<le> a_id a" using rest(2) s3 by auto
        then have "\<forall>n \<in> set newn0. n_article_id n \<noteq> a_id a" using n0 by auto
        then have f1: "filter (\<lambda>n. n_user_id n = u_id u \<and> n_article_id n = a_id a) newn0 = []"
          and g1: "\<forall>n \<in> set newn0. \<not> (n_user_id n = u_id u \<and> n_article_id n = a_id a)"
          by (auto simp: filter_empty_conv)
        show ?thesis using rest(5) an u f1 g1 by auto
      qed
      show ?thesis
        apply (rule exI [of _ err], rule exI [of _ ?newa], rule exI [of _ ?newn],
               rule exI [of _ ?evs])
        using run ok' a1 a2 a3 a4 by blast
    qed
  qed
qed

lemma article_loop_append:
  "article_loop api now prem std (xs @ ys) w =
     (case article_loop api now prem std xs w of
        (None, w') \<Rightarrow> article_loop api now prem std ys w'
      | (Some e, w') \<Rightarrow> (Some e, w'))"
proof (induction xs arbitrary: w)
  case Nil
  show ?case by simp
next
  case (Cons x xs)
  obtain db log where w: "w = (db, log)" by (cases w)
  show ?case unfolding w
    by (simp add: Cons.IH split: option.splits sum.splits prod.splits)
qed

lemma article_loop_noop:
  "\<forall>c \<in> set cs. c_article_id c = [] \<or> c_article_id c \<in> set (map a_article_id (articles db)) \<Longrightarrow>
   article_loop api now prem std cs (db, log) = (None, (db, log))"
proof (induction cs)
  case Nil
  show ?case by simp
next
  case (Cons c cs)
  then have "c_article_id c = [] \<or> c_article_id c \<in> set (map a_article_id (articles db))"
    by simp
  from article_loop_skip [OF this] Cons show ?case by simp
qed

lemma tier_lists:
  assumes ok: "db_ok db"
  defines "prem \<equiv> filter (\<lambda>u. u_tier u = PREMIUM) (get_all_active_users db)"
    and "std \<equiv> filter (\<lambda>u. u_tier u = STANDARD) (get_all_active_users db)"
  shows "set prem \<subseteq> set (users db)" "set std \<subseteq> set (users db)"
    "distinct (map u_id prem)" "u_id ` set prem \<inter> u_id ` set std = {}"
proof -
  have du: "distinct (map u_id (users db))" using ok by (simp add: db_ok_def)
  show sub: "set prem \<subseteq> set (users db)" "set std \<subseteq> set (users db)"
    by (auto simp: prem_def std_def get_all_active_users_def)
  show "distinct (map u_id prem)"
    unfolding prem_def get_all_active_users_def using du by (simp add: distinct_map_filter)
  show "u_id ` set prem \<inter> u_id ` set std = {}"
  proof (rule ccontr)
    assume "u_id ` set prem \<inter> u_id ` set std \<noteq> {}"
    then obtain u v where uv: "u \<in> set prem" "v \<in> set std" "u_id u = u_id v" by auto
    then have "u \<in> set (users db)" "v \<in> set (users db)" using sub by auto
    with du uv(3) have "u = v" by (meson distinct_map inj_onD)
    with uv show False by (auto simp: prem_def std_def)
  qed
qed

lemma crawl_and_notify_run:
  "is_within_schedule_hours cfg hour \<Longrightarrow> feed \<noteq> [] \<Longrightarrow>
   crawl_and_notify cfg api feed hour now (db, log) =
     snd (article_loop api now (filter (\<lambda>u. u_tier u = PREMIUM) (get_all_active_users db))
            (filter (\<lambda>u. u_tier u = STANDARD) (get_all_active_users db)) feed (db, log @ [Fetch]))"
  by (simp add: crawl_and_notify_def Let_def)

lemma crawl_and_notify_effect:
  assumes ok: "db_ok db" and win: "is_within_schedule_hours cfg hour"
  shows "\<exists>newa newn evs.
     crawl_and_notify cfg api feed hour now (db, log) =
       (db\<lparr>articles := articles db @ newa, article_seq := article_seq db + length newa,
           notifications := notifications db @ newn,
           notification_seq := notification_seq db + length newn\<rparr>, log @ Fetch # evs) \<and>
     db_ok (db\<lparr>articles := articles db @ newa, article_seq := article_seq db + length newa,
                  notifications := notifications db @ newn,
                  notification_seq := notification_seq db + length newn\<rparr>) \<and>
     (\<forall>a \<in> set newa. article_seq db \<le> a_id a \<and> a_article_id a \<noteq> []) \<and>
     (\<forall>n \<in> set newn. article_seq db \<le> n_article_id n) \<and>
     ((\<forall>c \<in> set feed. fits_columns c) \<longrightarrow>
        (\<forall>c \<in> set feed. c_article_id c \<noteq> [] \<longrightarrow>
           c_article_id c \<in> set (map a_article_id (articles db @ newa)))) \<and>
     (\<forall>a \<in> set newa. \<forall>u \<in> set (users db). u_is_active u \<and> u_tier u = PREMIUM \<longrightarrow>
         Push (u_line_user_id u) (bubble_of a) \<in> set evs \<and>
         length (filter (\<lambda>n. n_user_id n = u_id u \<and> n_article_id n = a_id a) newn) =
           (if api (u_line_user_id u) (bubble_of a) then 1 else 0) \<and>
         (\<forall>n \<in> set newn. n_user_id n = u_id u \<and> n_article_id n = a_id a \<longrightarrow>
              n_sent_at n = Some now))"
proof (cases "feed = []")
  case True
  show ?thesis
    apply (rule exI [of _ "[]"], rule exI [of _ "[]"], rule exI [of _ "[]"])
    using True win ok by (simp add: crawl_and_notify_def)
next
  case False
  define prem where "prem = filter (\<lambda>u. u_tier u = PREMIUM) (get_all_active_users db)"
  define std where "std = filter (\<lambda>u. u_tier u = STANDARD) (get_all_active_users db)"
  note tl = tier_lists [OF ok, folded prem_def std_def]
  have run: "crawl_and_notify cfg api feed hour now (db, log) =
     snd (article_loop api now prem std feed (db, log @ [Fetch]))"
    using crawl_and_notify_run [OF win False] by (simp add: prem_def std_def)
  have pm: "u \<in> set prem" if "u \<in> set (users db)" "u_is_active u" "u_tier u = PREMIUM" for u
    using that by (simp add: prem_def get_all_active_users_def)
  from article_loop_effect [OF ok tl, of api now feed "log @ [Fetch]"]
  obtain err newa newn evs where
      r: "article_loop api now prem std feed (db, log @ [Fetch]) =
       (err, (db\<lparr>articles := articles db @ newa, article_seq := article_seq db + length newa,
                  notifications := notifications db @ newn,
                  notification_seq := notification_seq db + length newn\<rparr>, (log @ [Fetch]) @ evs))"
      and rest: "db_ok (db\<lparr>articles := articles db @ newa, article_seq := article_seq db + length newa,
                  notifications := notifications db @ newn,
                  notification_seq := notification_seq db + length newn\<rparr>)"
        "\<forall>a \<in> set newa. article_seq db \<le> a_id a \<and> a_article_id a \<noteq> []"
        "\<forall>n \<in> set newn. article_seq db \<le> n_article_id n"
        "(\<forall>c \<in> set feed. fits_columns c) \<longrightarrow>
           err = None \<and>
           (\<forall>c \<in> set feed. c_article_id c \<noteq> [] \<longrightarrow>
             c_article_id c \<in> set (map a_article_id (articles db @ newa)))"
        "\<forall>a \<in> set newa. \<forall>u \<in> set prem.
         Push (u_line_user_id u) (bubble_of a) \<in> set evs \<and>
         length (filter (\<lambda>n. n_user_id n = u_id u \<and> n_article_id n = a_id a) newn) =
           (if api (u_line_user_id u) (bubble_of a) then 1 else 0) \<and>
         (\<forall>n \<in> set newn. n_user_id n = u_id u \<and> n_article_id n = a_id a \<longrightarrow>
              n_sent_at n = Some now)"
    by blast
  have r': "crawl_and_notify cfg api feed hour now (db, log) =
       (db\<lparr>articles := articles db @ newa, article_seq := article_seq db + length newa,
           notifications := notifications db @ newn,
           notification_seq := notification_seq db + length newn\<rparr>, log @ Fetch # evs)"
    using run r by simp
  have k: "(\<forall>c \<in> set feed. fits_columns c) \<longrightarrow>
        (\<forall>c \<in> set feed. c_article_id c \<noteq> [] \<longrightarrow>
           c_article_id c \<in> set (map a_article_id (articles db @ newa)))"
    using rest(4) by blast
  have p: "\<forall>a \<in> set newa. \<forall>u \<in> set (users db). u_is_active u \<and> u_tier u = PREMIUM \<longrightarrow>
         Push (u_line_user_id u) (bubble_of a) \<in> set evs \<and>
         length (filter (\<lambda>n. n_user_id n = u_id u \<and> n_article_id n = a_id a) newn) =
           (if api (u_line_user_id u) (bubble_of a) then 1 else 0) \<and>
         (\<forall>n \<in> set newn. n_user_id n = u_id u \<and> n_article_id n = a_id a \<longrightarrow>
              n_sent_at n = Some now)"
    using rest(5) pm by blast
  show ?thesis
    apply (rule exI [of _ newa], rule exI [of _ newn], rule exI [of _ evs])
    using r' rest(1,2,3) k p by blast
qed

lemma crawl_and_notify_fields:
  assumes ok: "db_ok db" and win: "is_within_schedule_hours cfg hour"
    and run: "crawl_and_notify cfg api feed hour now (db, log) = (db', log')"
  obtains newa newn evs where
    "articles db' = articles db @ newa" "notifications db' = notifications db @ newn"
    "users db' = users db" "log' = log @ Fetch # evs" "db_ok db'"
    "\<forall>a \<in> set newa. article_seq db \<le> a_id a \<and> a_article_id a \<noteq> []"
    "\<forall>n \<in> set newn. article_seq db \<le> n_article_id n"
    "(\<forall>c \<in> set feed. fits_columns c) \<longrightarrow>
       (\<forall>c \<in> set feed. c_article_id c \<noteq> [] \<longrightarrow>
         c_article_id c \<in> set (map a_article_id (articles db')))"
    "\<forall>a \<in> set newa. \<forall>u \<in> set (users db). u_is_active u \<and> u_tier u = PREMIUM \<longrightarrow>
         Push (u_line_user_id u) (bubble_of a) \<in> set evs \<and>
         length (filter (\<lambda>n. n_user_id n = u_id u \<and> n_article_id n = a_id a) newn) =
           (if api (u_line_user_id u) (bubble_of a) then 1 else 0) \<and>
         (\<forall>n \<in> set newn. n_user_id n = u_id u \<and> n_article_id n = a_id a \<longrightarrow>
              n_sent_at n = Some now)"
proof -
  from crawl_and_notify_effect [OF ok win, of api feed now log] obtain newa newn evs where
    r: "crawl_and_notify cfg api feed hour now (db, log) =
       (db\<lparr>articles := articles db @ newa, article_seq := article_seq db + length newa,
           notifications := notifications db @ newn,
           notification_seq := notification_seq db + length newn\<rparr>, log @ Fetch # evs)"
    and rest: "db_ok (db\<lparr>articles := articles db @ newa, article_seq := article_seq db + length newa,
                  notifications := notifications db @ newn,
                  notification_seq := notification_seq db + length newn\<rparr>)"
      "\<forall>a \<in> set newa. article_seq db \<le> a_id a \<and> a_article_id a \<noteq> []"
      "\<forall>n \<in> set newn. article_seq db \<le> n_article_id n"
      "(\<forall>c \<in> set feed. fits_columns c) \<longrightarrow>
        (\<forall>c \<in> set feed. c_article_id c \<noteq> [] \<longrightarrow>
           c_article_id c \<in> set (map a_article_id (articles db @ newa)))"
      "\<forall>a \<in> set newa. \<forall>u \<in> set (users db). u_is_active u \<and> u_tier u = PREMIUM \<longrightarrow>
         Push (u_line_user_id u) (bubble_of a) \<in> set evs \<and>
         length (filter (\<lambda>n. n_user_id n = u_id u \<and> n_article_id n = a_id a) newn) =
           (if api (u_line_user_id u) (bubble_of a) then 1 else 0) \<and>
         (\<forall>n \<in> set newn. n_user_id n = u_id u \<and> n_article_id n = a_id a \<longrightarrow>
              n_sent_at n = Some now)"
    by blast
  from r run have d: "db' = db\<lparr>articles := articles db @ newa, article_seq := article_seq db + length newa,
           notifications := notifications db @ newn,
           notification_seq := notification_seq db + length newn\<rparr>"
    and l: "log' = log @ Fetch # evs" by simp_all
  have f: "articles db' = articles db @ newa" "notifications db' = notifications db @ newn"
    "users db' = users db" by (simp_all add: d)
  have k: "(\<forall>c \<in> set feed. fits_columns c) \<longrightarrow>
       (\<forall>c \<in> set feed. c_article_id c \<noteq> [] \<longrightarrow>
         c_article_id c \<in> set (map a_article_id (articles db')))"
    using rest(4) f(1) by simp
  have o: "db_ok db'" using rest(1) d by simp
  from f l o rest(2,3) k rest(5) show thesis by (rule that)
qed

lemma crawl_and_notify_reaches:
  assumes ok: "db_ok db" and win: "is_within_schedule_hours cfg hour"
    and feed: "feed = pre @ c # post"
    and fit: "\<forall>c' \<in> set pre. fits_columns c'" "fits_columns c"
    and key: "c_article_id c \<noteq> []"
    and run: "crawl_and_notify cfg api feed hour now (db, log) = (db', log')"
  shows "c_article_id c \<in> set (map a_article_id (articles db'))"
proof -
  define prem where "prem = filter (\<lambda>u. u_tier u = PREMIUM) (get_all_active_users db)"
  define std where "std = filter (\<lambda>u. u_tier u = STANDARD) (get_all_active_users db)"
  note tl = tier_lists [OF ok, folded prem_def std_def]
  have ne: "feed \<noteq> []" using feed by simp
  have r0: "crawl_and_notify cfg api feed hour now (db, log) =
     snd (article_loop api now prem std ((pre @ [c]) @ post) (db, log @ [Fetch]))"
    using crawl_and_notify_run [OF win ne] by (simp add: prem_def std_def feed)
  have allfit: "\<forall>c' \<in> set (pre @ [c]). fits_columns c'" using fit by simp
  from article_loop_effect [OF ok tl, of api now "pre @ [c]" "log @ [Fetch]"]
  obtain err newa newn evs where
      r: "article_loop api now prem std (pre @ [c]) (db, log @ [Fetch]) =
       (err, (db\<lparr>articles := articles db @ newa, article_seq := article_seq db + length newa,
                  notifications := notifications db @ newn,
                  notification_seq := notification_seq db + length newn\<rparr>, (log @ [Fetch]) @ evs))"
      and okm: "db_ok (db\<lparr>articles := articles db @ newa, article_seq := article_seq db + length newa,
                  notifications := notifications db @ newn,
                  notification_seq := notification_seq db + length newn\<rparr>)"
      and cov: "(\<forall>c' \<in> set (pre @ [c]). fits_columns c') \<longrightarrow>
           err = None \<and>
           (\<forall>c' \<in> set (pre @ [c]). c_article_id c' \<noteq> [] \<longrightarrow>
             c_article_id c' \<in> set (map a_article_id (articles db @ newa)))"
    by blast
  define dbm where "dbm = db\<lparr>articles := articles db @ newa, article_seq := article_seq db + length newa,
                  notifications := notifications db @ newn,
                  notification_seq := notification_seq db + length newn\<rparr>"
  from cov allfit have e: "err = None"
    and km: "c_article_id c \<in> set (map a_article_id (articles dbm))"
    using key by (auto simp: dbm_def)
  have tlm: "set prem \<subseteq> set (users dbm)" "set std \<subseteq> set (users dbm)"
    using tl(1,2) by (simp_all add: dbm_def)
  from article_loop_effect [OF okm [folded dbm_def] tlm tl(3,4), of api now post "(log @ [Fetch]) @ evs"]
  obtain err2 newa2 newn2 evs2 where
      r2: "article_loop api now prem std post (dbm, (log @ [Fetch]) @ evs) =
       (err2, (dbm\<lparr>articles := articles dbm @ newa2, article_seq := article_seq dbm + length newa2,
                  notifications := notifications dbm @ newn2,
                  notification_seq := notification_seq dbm + length newn2\<rparr>,
               ((log @ [Fetch]) @ evs) @ evs2))"
    by blast
  have "article_loop api now prem std ((pre @ [c]) @ post) (db, log @ [Fetch]) =
       (err2, (dbm\<lparr>articles := articles dbm @ newa2, article_seq := article_seq dbm + length newa2,
                  notifications := notifications dbm @ newn2,
                  notification_seq := notification_seq dbm + length newn2\<rparr>,
               ((log @ [Fetch]) @ evs) @ evs2))"
    unfolding article_loop_append [of api now prem std "pre @ [c]" post] r e
    using r2 by (simp add: dbm_def [symmetric])
  with r0 run have "db' = dbm\<lparr>articles := articles dbm @ newa2,
                  article_seq := article_seq dbm + length newa2,
                  notifications := notifications dbm @ newn2,
                  notification_seq := notification_seq dbm + length newn2\<rparr>"
    by simp
  with km show ?thesis by simp
qed

lemma filter_key_single:
  "distinct (map f xs) \<Longrightarrow> k \<in> set (map f xs) \<Longrightarrow> \<exists>a. filter (\<lambda>x. f x = k) xs = [a]"
proof (induction xs)
  case Nil
  then show ?case by simp
next
  case (Cons x xs)
  show ?case
  proof (cases "f x = k")
    case True
    with Cons.prems have "k \<notin> f ` set xs" by simp
    then have "\<forall>y \<in> set xs. f y \<noteq> k" by blast
    then have "filter (\<lambda>x. f x = k) xs = []" by (simp add: filter_empty_conv)
    with True show ?thesis by simp
  next
    case False
    with Cons show ?thesis by auto
  qed
qed

lemma keyword_in_title_iff: "keyword_in_title t kws \<longleftrightarrow> (\<exists>k \<in> set kws. sublist k t)"
  by (induction kws) auto

lemma keyword_in_text_iff:
  "keyword_in_text str_lower t kws \<longleftrightarrow> (\<exists>k \<in> set kws. sublist (str_lower k) t)"
  by (induction kws) auto

lemma filter_by_keywords_filter:
  "filter_by_keywords arts kws = filter (\<lambda>a. \<exists>k \<in> set kws. sublist k (c_title a)) arts"
  by (induction arts) (auto simp: keyword_in_title_iff)

lemma mark_first_split:
  "i \<notin> set (map n_id pre) \<Longrightarrow> n_id n = i \<Longrightarrow>
   mark_first i t (pre @ n # post) = pre @ n\<lparr>n_sent_at := Some t\<rparr> # post"
  by (induction pre) auto

subsection \<open>Intake\<close>

text \<open>
  C1 (amended). Start from a well-formed store and let two ticks of
  \<open>crawl_and_notify\<close> run inside the schedule window, the second on the store the
  first left. The first feed holds the candidate \<open>c\<close>, whose \<open>article_id\<close> is not
  empty, and \<open>c\<close> and the candidates before it in that feed fit their columns; the
  second feed, any feed, holds \<open>c\<close> again. Then after the first tick and after the
  second the store holds exactly one article with that \<open>article_id\<close>, the same row,
  and the second tick adds no notification for it, for any user. If every keyed
  candidate of the second feed is stored when the second tick starts, that tick leaves
  the whole store as it was. No tick stores an article with an empty \<open>article_id\<close>.
\<close>

theorem intake_idempotent:
  assumes ok: "db_ok db0"
    and win: "is_within_schedule_hours cfg h1" "is_within_schedule_hours cfg h2"
    and f1: "feed1 = pre @ c # post" "\<forall>c' \<in> set pre. fits_columns c'" "fits_columns c"
    and c: "c \<in> set feed2" "c_article_id c \<noteq> []"
    and t1: "crawl_and_notify cfg api1 feed1 h1 now1 (db0, log0) = (db1, log1)"
    and t2: "crawl_and_notify cfg api2 feed2 h2 now2 (db1, log1) = (db2, log2)"
  shows "(\<exists>a. filter (\<lambda>x. a_article_id x = c_article_id c) (articles db1) = [a] \<and>
              filter (\<lambda>x. a_article_id x = c_article_id c) (articles db2) = [a] \<and>
              filter (\<lambda>n. n_article_id n = a_id a) (notifications db2) =
                filter (\<lambda>n. n_article_id n = a_id a) (notifications db1)) \<and>
         ((\<forall>c' \<in> set feed2. c_article_id c' = [] \<or>
              c_article_id c' \<in> set (map a_article_id (articles db1))) \<longrightarrow> db2 = db1) \<and>
         filter (\<lambda>x. a_article_id x = []) (articles db2) =
           filter (\<lambda>x. a_article_id x = []) (articles db0)"
proof -
  obtain newa1 newn1 evs1 where g1:
    "articles db1 = articles db0 @ newa1" "notifications db1 = notifications db0 @ newn1"
    "users db1 = users db0" "log1 = log0 @ Fetch # evs1" "db_ok db1"
    "\<forall>a \<in> set newa1. article_seq db0 \<le> a_id a \<and> a_article_id a \<noteq> []"
    "\<forall>n \<in> set newn1. article_seq db0 \<le> n_article_id n"
    "(\<forall>c \<in> set feed1. fits_columns c) \<longrightarrow>
       (\<forall>c \<in> set feed1. c_article_id c \<noteq> [] \<longrightarrow>
         c_article_id c \<in> set (map a_article_id (articles db1)))"
    "\<forall>a \<in> set newa1. \<forall>u \<in> set (users db0). u_is_active u \<and> u_tier u = PREMIUM \<longrightarrow>
         Push (u_line_user_id u) (bubble_of a) \<in> set evs1 \<and>
         length (filter (\<lambda>n. n_user_id n = u_id u \<and> n_article_id n = a_id a) newn1) =
           (if api1 (u_line_user_id u) (bubble_of a) then 1 else 0) \<and>
         (\<forall>n \<in> set newn1. n_user_id n = u_id u \<and> n_article_id n = a_id a \<longrightarrow>
              n_sent_at n = Some now1)"
    by (rule crawl_and_notify_fields [OF ok win(1) t1])
  note ok1 = g1(5)
  obtain newa newn evs where g2:
    "articles db2 = articles db1 @ newa" "notifications db2 = notifications db1 @ newn"
    "users db2 = users db1" "log2 = log1 @ Fetch # evs" "db_ok db2"
    "\<forall>a \<in> set newa. article_seq db1 \<le> a_id a \<and> a_article_id a \<noteq> []"
    "\<forall>n \<in> set newn. article_seq db1 \<le> n_article_id n"
    "(\<forall>c \<in> set feed2. fits_columns c) \<longrightarrow>
       (\<forall>c \<in> set feed2. c_article_id c \<noteq> [] \<longrightarrow>
         c_article_id c \<in> set (map a_article_id (articles db2)))"
    "\<forall>a \<in> set newa. \<forall>u \<in> set (users db1). u_is_active u \<and> u_tier u = PREMIUM \<longrightarrow>
         Push (u_line_user_id u) (bubble_of a) \<in> set evs \<and>
         length (filter (\<lambda>n. n_user_id n = u_id u \<and> n_article_id n = a_id a) newn) =
           (if api2 (u_line_user_id u) (bubble_of a) then 1 else 0) \<and>
         (\<forall>n \<in> set newn. n_user_id n = u_id u \<and> n_article_id n = a_id a \<longrightarrow>
              n_sent_at n = Some now2)"
    by (rule crawl_and_notify_fields [OF ok1 win(2) t2])
  note a2 = g2(1) and n2 = g2(2) and ok2 = g2(5) and fresh = g2(7)
  have kin: "c_article_id c \<in> set (map a_article_id (articles db1))"
    by (rule crawl_and_notify_reaches [OF ok win(1) f1 c(2) t1])
  have d1: "distinct (map a_article_id (articles db1))" using ok1 by (simp add: db_ok_def)
  from filter_key_single [OF d1 kin] obtain a where
    a: "filter (\<lambda>x. a_article_id x = c_article_id c) (articles db1) = [a]" by blast
  then have "a \<in> set (filter (\<lambda>x. a_article_id x = c_article_id c) (articles db1))" by simp
  then have ain: "a \<in> set (articles db1)" by simp
  have "distinct (map a_article_id (articles db1 @ newa))"
    using ok2 a2 by (simp add: db_ok_def)
  then have "a_article_id ` set (articles db1) \<inter> a_article_id ` set newa = {}" by simp
  with kin have "c_article_id c \<notin> a_article_id ` set newa" by auto
  then have "\<forall>x \<in> set newa. a_article_id x \<noteq> c_article_id c" by force
  then have "filter (\<lambda>x. a_article_id x = c_article_id c) newa = []"
    by (simp add: filter_empty_conv)
  with a a2 have b: "filter (\<lambda>x. a_article_id x = c_article_id c) (articles db2) = [a]" by simp
  have "a_id a < article_seq db1" using ok1 ain by (simp add: db_ok_def)
  with fresh have "\<forall>n \<in> set newn. n_article_id n \<noteq> a_id a" by auto
  then have "filter (\<lambda>n. n_article_id n = a_id a) newn = []" by (simp add: filter_empty_conv)
  with n2 have n: "filter (\<lambda>n. n_article_id n = a_id a) (notifications db2) =
                filter (\<lambda>n. n_article_id n = a_id a) (notifications db1)" by simp
  have same: "db2 = db1"
    if all: "\<forall>c' \<in> set feed2. c_article_id c' = [] \<or>
                 c_article_id c' \<in> set (map a_article_id (articles db1))"
  proof -
    have "feed2 \<noteq> []" using c(1) by auto
    then have "crawl_and_notify cfg api2 feed2 h2 now2 (db1, log1) = (db1, log1 @ [Fetch])"
      using win(2) article_loop_noop [OF all]
      by (simp add: crawl_and_notify_def Let_def)
    with t2 show ?thesis by simp
  qed
  have "filter (\<lambda>x. a_article_id x = []) newa1 = []" "filter (\<lambda>x. a_article_id x = []) newa = []"
    using g1(6) g2(6) by (simp_all add: filter_empty_conv)
  then have keyless: "filter (\<lambda>x. a_article_id x = []) (articles db2) =
           filter (\<lambda>x. a_article_id x = []) (articles db0)"
    by (simp add: a2 g1(1))
  from a b n same keyless show ?thesis by blast
qed

theorem intake_idempotent_witness:
  "db_ok example_db \<and>
   is_within_schedule_hours example_cfg 8 \<and> is_within_schedule_hours example_cfg 9 \<and>
   fits_columns second_candidate \<and> fits_columns loan_candidate \<and>
   c_article_id loan_candidate \<noteq> [] \<and>
   crawl_and_notify example_cfg (\<lambda>to msg. True) [second_candidate, loan_candidate] 8 100
       (example_db, []) =
     (example_db\<lparr>articles := [example_article 1, new_article example_db 100 second_candidate,
                               (new_article example_db 100 loan_candidate)\<lparr>a_id := 3\<rparr>],
                 article_seq := 4,
                 notifications :=
                   [example_pending 1,
                    \<lparr>n_id = 2, n_user_id = 1, n_article_id = 2, n_sent_at = Some 100, n_created_at = 100\<rparr>,
                    \<lparr>n_id = 3, n_user_id = 2, n_article_id = 2, n_sent_at = None, n_created_at = 100\<rparr>,
                    \<lparr>n_id = 4, n_user_id = 1, n_article_id = 3, n_sent_at = Some 100, n_created_at = 100\<rparr>,
                    \<lparr>n_id = 5, n_user_id = 2, n_article_id = 3, n_sent_at = None, n_created_at = 100\<rparr>],
                 notification_seq := 6\<rparr>,
      [Fetch, Push (py ''U1'') (bubble_of (new_article example_db 100 second_candidate)),
       Push (py ''U1'') (bubble_of (new_article example_db 100 loan_candidate))]) \<and>
   (\<exists>a. filter (\<lambda>x. a_article_id x = c_article_id loan_candidate)
          (articles (fst (crawl_and_notify example_cfg (\<lambda>to msg. True)
             [second_candidate, loan_candidate] 8 100 (example_db, [])))) = [a] \<and>
        filter (\<lambda>x. a_article_id x = c_article_id loan_candidate)
          (articles (fst (crawl_and_notify example_cfg (\<lambda>to msg. True)
             [body_candidate, loan_candidate] 9 200
             (crawl_and_notify example_cfg (\<lambda>to msg. True)
                [second_candidate, loan_candidate] 8 100 (example_db, []))))) = [a] \<and>
        filter (\<lambda>n. n_article_id n = a_id a)
          (notifications (fst (crawl_and_notify example_cfg (\<lambda>to msg. True)
             [body_candidate, loan_candidate] 9 200
             (crawl_and_notify example_cfg (\<lambda>to msg. True)
                [second_candidate, loan_candidate] 8 100 (example_db, []))))) =
        filter (\<lambda>n. n_article_id n = a_id a)
          (notifications (fst (crawl_and_notify example_cfg (\<lambda>to msg. True)
             [second_candidate, loan_candidate] 8 100 (example_db, [])))))"
proof -
  let ?w1 = "crawl_and_notify example_cfg (\<lambda>to msg. True) [second_candidate, loan_candidate] 8 100
               (example_db, [])"
  let ?w2 = "crawl_and_notify example_cfg (\<lambda>to msg. True) [body_candidate, loan_candidate] 9 200 ?w1"
  have ok: "db_ok example_db" by code_simp
  have w1: "is_within_schedule_hours example_cfg 8" by code_simp
  have w2: "is_within_schedule_hours example_cfg 9" by code_simp
  have fp: "fits_columns second_candidate" by code_simp
  have fc: "fits_columns loan_candidate" by code_simp
  have k: "c_article_id loan_candidate \<noteq> []" by code_simp
  have e: "?w1 =
     (example_db\<lparr>articles := [example_article 1, new_article example_db 100 second_candidate,
                               (new_article example_db 100 loan_candidate)\<lparr>a_id := 3\<rparr>],
                 article_seq := 4,
                 notifications :=
                   [example_pending 1,
                    \<lparr>n_id = 2, n_user_id = 1, n_article_id = 2, n_sent_at = Some 100, n_created_at = 100\<rparr>,
                    \<lparr>n_id = 3, n_user_id = 2, n_article_id = 2, n_sent_at = None, n_created_at = 100\<rparr>,
                    \<lparr>n_id = 4, n_user_id = 1, n_article_id = 3, n_sent_at = Some 100, n_created_at = 100\<rparr>,
                    \<lparr>n_id = 5, n_user_id = 2, n_article_id = 3, n_sent_at = None, n_created_at = 100\<rparr>],
                 notification_seq := 6\<rparr>,
      [Fetch, Push (py ''U1'') (bubble_of (new_article example_db 100 second_candidate)),
       Push (py ''U1'') (bubble_of (new_article example_db 100 loan_candidate))])"
    by code_simp
  have t1: "?w1 = (fst ?w1, snd ?w1)" by simp
  have t2: "crawl_and_notify example_cfg (\<lambda>to msg. True) [body_candidate, loan_candidate] 9 200
              (fst ?w1, snd ?w1) = (fst ?w2, snd ?w2)" by simp
  have f: "[second_candidate, loan_candidate] = [second_candidate] @ loan_candidate # []" by simp
  have fpre: "\<forall>c' \<in> set [second_candidate]. fits_columns c'" using fp by simp
  have c2: "loan_candidate \<in> set [body_candidate, loan_candidate]" by simp
  from intake_idempotent [OF ok w1 w2 f fpre fc c2 k t1 t2]
  have "\<exists>a. filter (\<lambda>x. a_article_id x = c_article_id loan_candidate) (articles (fst ?w1)) = [a] \<and>
        filter (\<lambda>x. a_article_id x = c_article_id loan_candidate) (articles (fst ?w2)) = [a] \<and>
        filter (\<lambda>n. n_article_id n = a_id a) (notifications (fst ?w2)) =
        filter (\<lambda>n. n_article_id n = a_id a) (notifications (fst ?w1))"
    by (rule conjunct1)
  with ok w1 w2 fp fc k e show ?thesis by (intro conjI)
qed

text \<open>
  Three runs that show why the statement is bounded as it is. A keyless candidate delivered
  twice is never stored. A candidate behind one whose title is too long for its column
  is not stored by either tick, since the failed insert ends the tick. When the purge runs
  between two ticks, the second tick stores the article again, under a new primary key,
  and notifies again.
\<close>

theorem intake_idempotent_counterexample:
  "crawl_and_notify example_cfg (\<lambda>to msg. True) [keyless_candidate] 8 100 (example_db, []) =
     (example_db, [Fetch]) \<and>
   crawl_and_notify example_cfg (\<lambda>to msg. True) [keyless_candidate] 9 200 (example_db, [Fetch]) =
     (example_db, [Fetch, Fetch]) \<and>
   filter (\<lambda>x. a_article_id x = c_article_id keyless_candidate) (articles example_db) = [] \<and>
   crawl_and_notify example_cfg (\<lambda>to msg. True) [long_candidate, loan_candidate] 8 100
       (example_db, []) = (example_db, [Fetch]) \<and>
   crawl_and_notify example_cfg (\<lambda>to msg. True) [long_candidate, loan_candidate] 9 200
       (example_db, [Fetch]) = (example_db, [Fetch, Fetch]) \<and>
   c_article_id loan_candidate \<noteq> [] \<and>
   filter (\<lambda>x. a_article_id x = c_article_id loan_candidate) (articles example_db) = [] \<and>
   map a_id (filter (\<lambda>x. a_article_id x = c_article_id loan_candidate)
     (articles (fst (crawl_and_notify example_cfg (\<lambda>to msg. True) [loan_candidate] 8 100
        (example_db, []))))) = [2] \<and>
   map a_id (filter (\<lambda>x. a_article_id x = c_article_id loan_candidate)
     (articles (fst (crawl_and_notify example_cfg (\<lambda>to msg. True) [loan_candidate] 9 15638500
        (cleanup_old_articles example_cfg 15638500
           (fst (crawl_and_notify example_cfg (\<lambda>to msg. True) [loan_candidate] 8 100
              (example_db, []))),
         snd (crawl_and_notify example_cfg (\<lambda>to msg. True) [loan_candidate] 8 100
              (example_db, []))))))) = [3] \<and>
   map n_id (notifications (fst (crawl_and_notify example_cfg (\<lambda>to msg. True) [loan_candidate] 9 15638500
        (cleanup_old_articles example_cfg 15638500
           (fst (crawl_and_notify example_cfg (\<lambda>to msg. True) [loan_candidate] 8 100
              (example_db, []))),
         snd (crawl_and_notify example_cfg (\<lambda>to msg. True) [loan_candidate] 8 100
              (example_db, [])))))) = [4, 5]"
  by code_simp

text \<open>
  C2 (amended). In a tick of \<open>crawl_and_notify\<close> inside the schedule window, from a
  well-formed store, for every article \<open>a\<close> the tick inserted and every active PREMIUM
  user \<open>u\<close>: the transport is called for the pair in this tick, and what is recorded
  follows its answer. If the call succeeded there is exactly one notification for
  \<open>(u, a)\<close> and it is marked sent at the tick's clock reading; if the call failed
  there is no notification for \<open>(u, a)\<close> at all.
\<close>

theorem immediate_fanout:
  assumes ok: "db_ok db" and win: "is_within_schedule_hours cfg hour"
    and run: "crawl_and_notify cfg api feed hour now (db, log) = (db', log')"
    and a: "a \<in> set (articles db')" "a \<notin> set (articles db)"
    and u: "u \<in> set (users db)" "u_is_active u" "u_tier u = PREMIUM"
  shows "Push (u_line_user_id u) (bubble_of a) \<in> set (drop (length log) log') \<and>
         (api (u_line_user_id u) (bubble_of a) \<longrightarrow>
            (\<exists>n. filter (\<lambda>n. n_user_id n = u_id u \<and> n_article_id n = a_id a) (notifications db') = [n] \<and>
                 n_sent_at n = Some now)) \<and>
         (\<not> api (u_line_user_id u) (bubble_of a) \<longrightarrow>
            filter (\<lambda>n. n_user_id n = u_id u \<and> n_article_id n = a_id a) (notifications db') = [])"
proof -
  let ?P = "\<lambda>n. n_user_id n = u_id u \<and> n_article_id n = a_id a"
  obtain newa newn evs where f:
    "articles db' = articles db @ newa" "notifications db' = notifications db @ newn"
    "users db' = users db" "log' = log @ Fetch # evs" "db_ok db'"
    "\<forall>a \<in> set newa. article_seq db \<le> a_id a \<and> a_article_id a \<noteq> []"
    "\<forall>n \<in> set newn. article_seq db \<le> n_article_id n"
    "(\<forall>c \<in> set feed. fits_columns c) \<longrightarrow>
       (\<forall>c \<in> set feed. c_article_id c \<noteq> [] \<longrightarrow>
         c_article_id c \<in> set (map a_article_id (articles db')))"
    "\<forall>a \<in> set newa. \<forall>u \<in> set (users db). u_is_active u \<and> u_tier u = PREMIUM \<longrightarrow>
         Push (u_line_user_id u) (bubble_of a) \<in> set evs \<and>
         length (filter (\<lambda>n. n_user_id n = u_id u \<and> n_article_id n = a_id a) newn) =
           (if api (u_line_user_id u) (bubble_of a) then 1 else 0) \<and>
         (\<forall>n \<in> set newn. n_user_id n = u_id u \<and> n_article_id n = a_id a \<longrightarrow>
              n_sent_at n = Some now)"
    by (rule crawl_and_notify_fields [OF ok win run])
  note a' = f(1) and n' = f(2) and l' = f(4) and fresh = f(6) and p = f(9)
  from a a' have an: "a \<in> set newa" by auto
  from p an u have ev: "Push (u_line_user_id u) (bubble_of a) \<in> set evs"
    and len: "length (filter ?P newn) = (if api (u_line_user_id u) (bubble_of a) then 1 else 0)"
    and sent: "\<forall>n \<in> set newn. ?P n \<longrightarrow> n_sent_at n = Some now"
    by auto
  have "\<forall>n \<in> set (notifications db). n_article_id n < article_seq db"
    using ok unfolding db_ok_def by auto
  moreover have "article_seq db \<le> a_id a" using fresh an by auto
  ultimately have "\<forall>n \<in> set (notifications db). \<not> ?P n" by auto
  then have "filter ?P (notifications db) = []" by (simp add: filter_empty_conv)
  with n' have f: "filter ?P (notifications db') = filter ?P newn" by simp
  have 1: "Push (u_line_user_id u) (bubble_of a) \<in> set (drop (length log) log')"
    using ev l' by simp
  have 2: "\<exists>n. filter ?P (notifications db') = [n] \<and> n_sent_at n = Some now"
    if "api (u_line_user_id u) (bubble_of a)"
  proof -
    from that len have "length (filter ?P newn) = 1" by simp
    then obtain n where n: "filter ?P newn = [n]"
      by (cases "filter ?P newn") auto
    then have "n \<in> set (filter ?P newn)" by simp
    then have "n \<in> set newn \<and> ?P n" by simp
    with sent have "n_sent_at n = Some now" by blast
    with n f show ?thesis by simp
  qed
  have 3: "filter ?P (notifications db') = []" if "\<not> api (u_line_user_id u) (bubble_of a)"
    using that len f by simp
  from 1 2 3 show ?thesis by blast
qed


theorem immediate_fanout_witness:
  "db_ok example_db \<and> is_within_schedule_hours example_cfg 8 \<and>
   new_article example_db 100 loan_candidate \<notin> set (articles example_db) \<and>
   hd example_users \<in> set (users example_db) \<and> u_is_active (hd example_users) \<and>
   u_tier (hd example_users) = PREMIUM \<and>
   Push (u_line_user_id (hd example_users)) (bubble_of (new_article example_db 100 loan_candidate))
     \<in> set (drop (length ([] :: event list))
          (snd (crawl_and_notify example_cfg (\<lambda>to msg. True) [loan_candidate] 8 100 (example_db, [])))) \<and>
   (\<exists>n. filter (\<lambda>n. n_user_id n = u_id (hd example_users) \<and>
                   n_article_id n = a_id (new_article example_db 100 loan_candidate))
          (notifications (fst (crawl_and_notify example_cfg (\<lambda>to msg. True) [loan_candidate] 8 100
             (example_db, [])))) = [n] \<and>
        n_sent_at n = Some 100)"
proof -
  let ?w = "crawl_and_notify example_cfg (\<lambda>to msg. True) [loan_candidate] 8 100 (example_db, [])"
  let ?a = "new_article example_db 100 loan_candidate"
  let ?u = "hd example_users"
  have ok: "db_ok example_db" by code_simp
  have w: "is_within_schedule_hours example_cfg 8" by code_simp
  have run: "?w = (fst ?w, snd ?w)" by simp
  have a1: "?a \<in> set (articles (fst ?w))" by code_simp
  have a2: "?a \<notin> set (articles example_db)" by code_simp
  have u1: "?u \<in> set (users example_db)" by code_simp
  have u2: "u_is_active ?u" by code_simp
  have u3: "u_tier ?u = PREMIUM" by code_simp
  from immediate_fanout [OF ok w run a1 a2 u1 u2 u3]
  have "Push (u_line_user_id ?u) (bubble_of ?a) \<in> set (drop (length ([] :: event list)) (snd ?w))"
    and "\<exists>n. filter (\<lambda>n. n_user_id n = u_id ?u \<and> n_article_id n = a_id ?a)
            (notifications (fst ?w)) = [n] \<and> n_sent_at n = Some 100"
    by simp_all
  with ok w a2 u1 u2 u3 show ?thesis by (intro conjI)
qed

theorem immediate_fanout_counterexample:
  "crawl_and_notify example_cfg (\<lambda>to msg. False) [loan_candidate] 8 100 (example_db, []) =
     (example_db\<lparr>articles := [example_article 1, new_article example_db 100 loan_candidate],
                 article_seq := 3,
                 notifications :=
                   [example_pending 1,
                    \<lparr>n_id = 2, n_user_id = 2, n_article_id = 2, n_sent_at = None, n_created_at = 100\<rparr>],
                 notification_seq := 3\<rparr>,
      [Fetch, Push (py ''U1'') (bubble_of (new_article example_db 100 loan_candidate))]) \<and>
   u_id (hd example_users) = 1 \<and> u_tier (hd example_users) = PREMIUM \<and>
   u_is_active (hd example_users) \<and> a_id (new_article example_db 100 loan_candidate) = 2 \<and>
   \<not> has_notification_for_article
       (fst (crawl_and_notify example_cfg (\<lambda>to msg. False) [loan_candidate] 8 100 (example_db, [])))
       1 2"
  by code_simp

subsection \<open>Hourly batch\<close>

text \<open>
  C3 (evaluation at the failing input). The standard user has eleven pending
  notifications and the transport succeeds. \<open>send_hourly_notifications\<close> makes one call,
  a carousel of the first ten articles whose alt text counts eleven, and marks all eleven
  notifications sent: the eleventh was never part of the message.
\<close>

theorem send_hourly_marks_excluded_record:
  "(case send_hourly_notifications (\<lambda>to msg. True) 1000 (backlog_db, []) of
      (db', log') \<Rightarrow>
        map n_sent_at (notifications db') = replicate 11 (Some 1000) \<and>
        log' = [Push (py ''U2'') (Carousel 11
                  (map (\<lambda>i. \<lparr>d_title = (py ''loan''), d_author = (py ''u1''), d_url = replicate i 117,
                              d_post_time = None\<rparr>) [1..<11]))])"
  by code_simp

subsection \<open>Delivery ledger operations\<close>

text \<open>
  C4 (amended). \<open>create_notification\<close> is no uniqueness gate. For a pair that already
  has a notification, and whose user and article exist, it does not fail: it appends a
  further pending notification for the same pair, so the pair then has at least two.
\<close>

theorem create_notification_no_gate:
  "has_notification_for_article db user_id article_id \<Longrightarrow>
   user_id \<in> set (map u_id (users db)) \<Longrightarrow> article_id \<in> set (map a_id (articles db)) \<Longrightarrow>
   \<exists>n db'. create_notification db now user_id article_id = Inr (n, db') \<and>
     n_user_id n = user_id \<and> n_article_id n = article_id \<and> n_sent_at n = None \<and>
     notifications db' = notifications db @ [n] \<and>
     length (filter (\<lambda>m. n_user_id m = user_id \<and> n_article_id m = article_id) (notifications db'))
       = Suc (length (filter (\<lambda>m. n_user_id m = user_id \<and> n_article_id m = article_id) (notifications db))) \<and>
     2 \<le> length (filter (\<lambda>m. n_user_id m = user_id \<and> n_article_id m = article_id) (notifications db'))"
proof -
  assume h: "has_notification_for_article db user_id article_id"
    and u: "user_id \<in> set (map u_id (users db))" and a: "article_id \<in> set (map a_id (articles db))"
  from h have "filter (\<lambda>m. n_user_id m = user_id \<and> n_article_id m = article_id) (notifications db) \<noteq> []"
    by (auto simp: has_notification_for_article_def find_None_iff filter_empty_conv)
  then have "1 \<le> length (filter (\<lambda>m. n_user_id m = user_id \<and> n_article_id m = article_id) (notifications db))"
    by (cases "filter (\<lambda>m. n_user_id m = user_id \<and> n_article_id m = article_id) (notifications db)") auto
  with u a show ?thesis
    by (simp add: create_notification_def Let_def)
qed


theorem create_notification_no_gate_witness:
  "has_notification_for_article example_db 2 1 \<and>
   2 \<in> set (map u_id (users example_db)) \<and> 1 \<in> set (map a_id (articles example_db)) \<and>
   (\<exists>n db'. create_notification example_db 20 2 1 = Inr (n, db') \<and>
      notifications db' = notifications example_db @ [n] \<and>
      2 \<le> length (filter (\<lambda>m. n_user_id m = 2 \<and> n_article_id m = 1) (notifications db')))"
proof -
  have h: "has_notification_for_article example_db 2 1" by code_simp
  have u: "2 \<in> set (map u_id (users example_db))" by code_simp
  have a: "1 \<in> set (map a_id (articles example_db))" by code_simp
  from create_notification_no_gate [OF h u a, of 20]
  have "\<exists>n db'. create_notification example_db 20 2 1 = Inr (n, db') \<and>
      notifications db' = notifications example_db @ [n] \<and>
      2 \<le> length (filter (\<lambda>m. n_user_id m = 2 \<and> n_article_id m = 1) (notifications db'))"
    by blast
  with h u a show ?thesis by (intro conjI)
qed

theorem create_notification_counterexample:
  "has_notification_for_article example_db 2 1 \<and>
   create_notification example_db 20 2 1 =
     Inr (\<lparr>n_id = 2, n_user_id = 2, n_article_id = 1, n_sent_at = None, n_created_at = 20\<rparr>,
          example_db\<lparr>notifications :=
                        [example_pending 1,
                         \<lparr>n_id = 2, n_user_id = 2, n_article_id = 1, n_sent_at = None,
                           n_created_at = 20\<rparr>],
                      notification_seq := 3\<rparr>) \<and>
   example_pending 1 =
     \<lparr>n_id = 1, n_user_id = 2, n_article_id = 1, n_sent_at = None, n_created_at = 10\<rparr>"
  by code_simp

text \<open>
  C5 (amended). \<open>mark_notification_sent\<close> takes no outcome and raises nothing. It sets
  \<open>sent_at\<close> of the first notification with the given id to the current time and
  changes nothing else, whether that notification was marked before or not: a second
  call replaces the time of the first by its own and the notification stays sent. For
  an id that no notification has it changes nothing. \<open>record_sent\<close> appends one row on
  each call, whatever the ledger holds and whatever the outcomes are.
\<close>

theorem mark_notification_sent_overwrites:
  "(notifications db = pre @ n # post \<and> i \<notin> set (map n_id pre) \<and> n_id n = i \<longrightarrow>
      mark_notification_sent db t1 i =
        db\<lparr>notifications := pre @ n\<lparr>n_sent_at := Some t1\<rparr> # post\<rparr> \<and>
      mark_notification_sent (mark_notification_sent db t1 i) t2 i =
        db\<lparr>notifications := pre @ n\<lparr>n_sent_at := Some t2\<rparr> # post\<rparr>) \<and>
   (i \<notin> set (map n_id (notifications db)) \<longrightarrow> mark_notification_sent db t1 i = db) \<and>
   mark_notification_sent (mark_notification_sent db t1 i) t2 i = mark_notification_sent db t2 i \<and>
   record_sent (record_sent l t1 p a at mt s1) t2 p a at mt s2 =
     l @ [\<lparr>m_id = Suc (length l), m_ptt_id = p, m_article_id = a, m_article_title = at,
            m_mail_title = mt, m_sent_at = t1, m_success = s1\<rparr>,
          \<lparr>m_id = Suc (Suc (length l)), m_ptt_id = p, m_article_id = a, m_article_title = at,
            m_mail_title = mt, m_sent_at = t2, m_success = s2\<rparr>]"
proof -
  have 1: "mark_notification_sent db t1 i =
        db\<lparr>notifications := pre @ n\<lparr>n_sent_at := Some t1\<rparr> # post\<rparr> \<and>
      mark_notification_sent (mark_notification_sent db t1 i) t2 i =
        db\<lparr>notifications := pre @ n\<lparr>n_sent_at := Some t2\<rparr> # post\<rparr>"
    if h: "notifications db = pre @ n # post" "i \<notin> set (map n_id pre)" "n_id n = i"
  proof -
    have "n_id (n\<lparr>n_sent_at := Some t1\<rparr>) = i" using h(3) by simp
    from mark_first_split [OF h(2) this, of t2 post] mark_first_split [OF h(2,3), of t1 post] h(1)
    show ?thesis by (simp add: mark_notification_sent_def)
  qed
  have 2: "mark_notification_sent db t1 i = db" if "i \<notin> set (map n_id (notifications db))"
    using that by (simp add: mark_notification_sent_def mark_first_absent)
  have 3: "mark_notification_sent (mark_notification_sent db t1 i) t2 i =
           mark_notification_sent db t2 i"
    by (simp add: mark_notification_sent_def mark_first_twice)
  have 4: "record_sent (record_sent l t1 p a at mt s1) t2 p a at mt s2 =
     l @ [\<lparr>m_id = Suc (length l), m_ptt_id = p, m_article_id = a, m_article_title = at,
            m_mail_title = mt, m_sent_at = t1, m_success = s1\<rparr>,
          \<lparr>m_id = Suc (Suc (length l)), m_ptt_id = p, m_article_id = a, m_article_title = at,
            m_mail_title = mt, m_sent_at = t2, m_success = s2\<rparr>]"
    by (simp add: record_sent_def)
  from 1 2 3 4 show ?thesis by blast
qed

theorem mark_notification_sent_overwrites_witness:
  "notifications backlog_db = [example_pending 1] @ example_pending 2 # map example_pending [3..<12] \<and>
   2 \<notin> set (map n_id [example_pending 1]) \<and> n_id (example_pending 2) = 2 \<and>
   mark_notification_sent backlog_db 100 2 =
     backlog_db\<lparr>notifications := [example_pending 1] @
        (example_pending 2)\<lparr>n_sent_at := Some 100\<rparr> # map example_pending [3..<12]\<rparr> \<and>
   mark_notification_sent (mark_notification_sent backlog_db 100 2) 200 2 =
     backlog_db\<lparr>notifications := [example_pending 1] @
        (example_pending 2)\<lparr>n_sent_at := Some 200\<rparr> # map example_pending [3..<12]\<rparr> \<and>
   77 \<notin> set (map n_id (notifications backlog_db)) \<and>
   mark_notification_sent backlog_db 100 77 = backlog_db"
proof -
  have h1: "notifications backlog_db =
              [example_pending 1] @ example_pending 2 # map example_pending [3..<12]" by code_simp
  have h2: "2 \<notin> set (map n_id [example_pending 1])" by code_simp
  have h3: "n_id (example_pending 2) = 2" by code_simp
  have h4: "77 \<notin> set (map n_id (notifications backlog_db))" by code_simp
  note m = mark_notification_sent_overwrites [of backlog_db "[example_pending 1]" "example_pending 2"
      "map example_pending [3..<12]" 2 100 200]
  note m' = mark_notification_sent_overwrites [of backlog_db "[]" "example_pending 1" "[]" 77 100 200]
  from m h1 h2 h3 have a: "mark_notification_sent backlog_db 100 2 =
     backlog_db\<lparr>notifications := [example_pending 1] @
        (example_pending 2)\<lparr>n_sent_at := Some 100\<rparr> # map example_pending [3..<12]\<rparr>"
    and b: "mark_notification_sent (mark_notification_sent backlog_db 100 2) 200 2 =
     backlog_db\<lparr>notifications := [example_pending 1] @
        (example_pending 2)\<lparr>n_sent_at := Some 200\<rparr> # map example_pending [3..<12]\<rparr>"
    by blast+
  from m' h4 have c: "mark_notification_sent backlog_db 100 77 = backlog_db" by blast
  from h1 h2 h3 a b h4 c show ?thesis by (intro conjI)
qed

theorem mark_notification_sent_counterexample:
  "notifications (mark_notification_sent example_db 100 1) =
     [\<lparr>n_id = 1, n_user_id = 2, n_article_id = 1, n_sent_at = Some 100, n_created_at = 10\<rparr>] \<and>
   notifications (mark_notification_sent (mark_notification_sent example_db 100 1) 200 1) =
     [\<lparr>n_id = 1, n_user_id = 2, n_article_id = 1, n_sent_at = Some 200, n_created_at = 10\<rparr>] \<and>
   map m_success (record_sent (record_sent [] 100 (py ''u1'') (py ''M.1.A.1'') (py ''t'') (py ''m'') True)
                     200 (py ''u1'') (py ''M.1.A.1'') (py ''t'') (py ''m'') False) = [True, False]"
  by code_simp

subsection \<open>Quota of the mail tracker\<close>

text \<open>
  C6 (evaluation at the failing input). The host's clock is Asia/Taipei and
  \<open>DAILY_LIMIT\<close> is 1. Two mails were sent successfully today at 00:40 and 01:00 local
  time, which SQLite stamps with the UTC time of the day before. Asked at 01:00,
  \<open>get_today_count\<close> is 0 and \<open>can_send_today\<close> answers \<open>True\<close>, although two
  successful sends fall on the current date of the timezone.
\<close>

theorem get_today_count_misses_todays_sends:
  "get_today_count Asia_Taipei
     [\<lparr>m_id = 1, m_ptt_id = py ''u1'', m_article_id = py ''M.1.A.1'', m_article_title = py ''loan'',
       m_mail_title = py ''hi'', m_sent_at = 60000, m_success = True\<rparr>,
      \<lparr>m_id = 2, m_ptt_id = py ''u2'', m_article_id = py ''M.2.A.2'', m_article_title = py ''loan'',
       m_mail_title = py ''hi'', m_sent_at = 61200, m_success = True\<rparr>] 61200 = 0 \<and>
   can_send_today 1 Asia_Taipei
     [\<lparr>m_id = 1, m_ptt_id = py ''u1'', m_article_id = py ''M.1.A.1'', m_article_title = py ''loan'',
       m_mail_title = py ''hi'', m_sent_at = 60000, m_success = True\<rparr>,
      \<lparr>m_id = 2, m_ptt_id = py ''u2'', m_article_id = py ''M.2.A.2'', m_article_title = py ''loan'',
       m_mail_title = py ''hi'', m_sent_at = 61200, m_success = True\<rparr>] 61200 \<and>
   todaysSuccessCount_spec Asia_Taipei
     [\<lparr>m_id = 1, m_ptt_id = py ''u1'', m_article_id = py ''M.1.A.1'', m_article_title = py ''loan'',
       m_mail_title = py ''hi'', m_sent_at = 60000, m_success = True\<rparr>,
      \<lparr>m_id = 2, m_ptt_id = py ''u2'', m_article_id = py ''M.2.A.2'', m_article_title = py ''loan'',
       m_mail_title = py ''hi'', m_sent_at = 61200, m_success = True\<rparr>] 61200 = 2"
  by code_simp

subsection \<open>Personalized batch\<close>

text \<open>
  C7 (amended). With \<open>DAILY_LIMIT = 1\<close> and an empty ledger, let
  \<open>process_articles_batch\<close> process two articles that match the keywords, have their
  fields, and get mail content generated. With delayed sending, and no delayed send
  running before the batch ends, both are queued in feed order and the ledger is still
  empty: queueing writes no ledger row, so the second article sees the quota check pass.
  With immediate sending, when the first mail is sent successfully and its UTC date is the
  host's local date, the first article is sent and recorded and the batch stops at the
  second with no ledger row for it.
\<close>

theorem batch_daily_cap:
  assumes lim: "DAILY_LIMIT env = 1"
    and k1: "check_article_keywords (lower env) (mail_keywords env) a1"
    and k2: "check_article_keywords (lower env) (mail_keywords env) a2"
    and f1: "c_article_id a1 \<noteq> []" "c_author a1 \<noteq> []" "c_title a1 \<noteq> []"
    and f2: "c_article_id a2 \<noteq> []" "c_author a2 \<noteq> []" "c_title a2 \<noteq> []"
    and g1: "generate_mail_content env (c_title a1) (c_content a1) (c_author a1) = (Some mt1, Some mc1)"
            "mt1 \<noteq> []" "mc1 \<noteq> []"
    and g2: "generate_mail_content env (c_title a2) (c_content a2) (c_author a2) = (Some mt2, Some mc2)"
            "mt2 \<noteq> []" "mc2 \<noteq> []"
  shows "process_articles_batch env now [a1, a2] False \<lparr>ledger = [], scheduled = []\<rparr> =
           (\<lparr>processed = 2, skipped = 0, failed = 0\<rparr>,
            \<lparr>ledger = [],
             scheduled = [\<lparr>md_ptt_id = c_author a1, md_article_id = c_article_id a1,
                           md_article_title = c_title a1, md_mail_title = mt1, md_mail_content = mc1\<rparr>,
                          \<lparr>md_ptt_id = c_author a2, md_article_id = c_article_id a2,
                           md_article_title = c_title a2, md_mail_title = mt2, md_mail_content = mc2\<rparr>]\<rparr>) \<and>
         (run_mailer env \<lparr>md_ptt_id = c_author a1, md_article_id = c_article_id a1,
                           md_article_title = c_title a1, md_mail_title = mt1, md_mail_content = mc1\<rparr>
            = SendReturned True \<and> sql_date now = date_today (host_utc_offset env) now \<longrightarrow>
          process_articles_batch env now [a1, a2] True \<lparr>ledger = [], scheduled = []\<rparr> =
           (\<lparr>processed = 1, skipped = 0, failed = 0\<rparr>,
            \<lparr>ledger = [\<lparr>m_id = 1, m_ptt_id = c_author a1, m_article_id = c_article_id a1,
                        m_article_title = c_title a1, m_mail_title = mt1, m_sent_at = now,
                        m_success = True\<rparr>],
             scheduled = []\<rparr>))"
proof -
  have c0: "can_send_today (DAILY_LIMIT env) (host_utc_offset env) [] now"
    by (simp add: can_send_today_def get_today_count_def lim)
  have delayed: "process_articles_batch env now [a1, a2] False \<lparr>ledger = [], scheduled = []\<rparr> =
           (\<lparr>processed = 2, skipped = 0, failed = 0\<rparr>,
            \<lparr>ledger = [],
             scheduled = [\<lparr>md_ptt_id = c_author a1, md_article_id = c_article_id a1,
                           md_article_title = c_title a1, md_mail_title = mt1, md_mail_content = mc1\<rparr>,
                          \<lparr>md_ptt_id = c_author a2, md_article_id = c_article_id a2,
                           md_article_title = c_title a2, md_mail_title = mt2, md_mail_content = mc2\<rparr>]\<rparr>)"
    using k1 k2 f1 f2 g1 g2 c0
    by (simp add: process_articles_batch_def process_article_def Let_def has_processed_article_def
          has_sent_to_def falsy_def schedule_mail_def)
  have immediate: "process_articles_batch env now [a1, a2] True \<lparr>ledger = [], scheduled = []\<rparr> =
           (\<lparr>processed = 1, skipped = 0, failed = 0\<rparr>,
            \<lparr>ledger = [\<lparr>m_id = 1, m_ptt_id = c_author a1, m_article_id = c_article_id a1,
                        m_article_title = c_title a1, m_mail_title = mt1, m_sent_at = now,
                        m_success = True\<rparr>],
             scheduled = []\<rparr>)"
    if m: "run_mailer env \<lparr>md_ptt_id = c_author a1, md_article_id = c_article_id a1,
                           md_article_title = c_title a1, md_mail_title = mt1, md_mail_content = mc1\<rparr>
            = SendReturned True" and d: "sql_date now = date_today (host_utc_offset env) now"
  proof -
    have c1: "\<not> can_send_today (DAILY_LIMIT env) (host_utc_offset env)
                 [\<lparr>m_id = 1, m_ptt_id = c_author a1, m_article_id = c_article_id a1,
                        m_article_title = c_title a1, m_mail_title = mt1, m_sent_at = now,
                        m_success = True\<rparr>] now"
      using d by (simp add: can_send_today_def get_today_count_def lim)
    show ?thesis
      using k1 k2 f1 g1 c0 c1 m
      by (simp add: process_articles_batch_def process_article_def Let_def has_processed_article_def
          has_sent_to_def falsy_def send_mail_def record_sent_def)
  qed
  from delayed immediate show ?thesis by blast
qed


theorem batch_daily_cap_witness:
  "DAILY_LIMIT example_env = 1 \<and>
   check_article_keywords (lower example_env) (mail_keywords example_env) loan_candidate \<and>
   check_article_keywords (lower example_env) (mail_keywords example_env) second_candidate \<and>
   sql_date 100000 = date_today (host_utc_offset example_env) 100000 \<and>
   fst (process_articles_batch example_env 100000 [loan_candidate, second_candidate] False
          \<lparr>ledger = [], scheduled = []\<rparr>) = \<lparr>processed = 2, skipped = 0, failed = 0\<rparr> \<and>
   fst (process_articles_batch example_env 100000 [loan_candidate, second_candidate] True
          \<lparr>ledger = [], scheduled = []\<rparr>) = \<lparr>processed = 1, skipped = 0, failed = 0\<rparr>"
proof -
  have lim: "DAILY_LIMIT example_env = 1" by code_simp
  have k1: "check_article_keywords (lower example_env) (mail_keywords example_env) loan_candidate" by code_simp
  have k2: "check_article_keywords (lower example_env) (mail_keywords example_env) second_candidate" by code_simp
  have f1: "c_article_id loan_candidate \<noteq> []" "c_author loan_candidate \<noteq> []"
    "c_title loan_candidate \<noteq> []" by code_simp+
  have f2: "c_article_id second_candidate \<noteq> []" "c_author second_candidate \<noteq> []"
    "c_title second_candidate \<noteq> []" by code_simp+
  have g1: "generate_mail_content example_env (c_title loan_candidate) (c_content loan_candidate)
              (c_author loan_candidate) = (Some (py ''hello''), Some (py ''body''))"
    by (simp add: example_env_def)
  have g2: "generate_mail_content example_env (c_title second_candidate) (c_content second_candidate)
              (c_author second_candidate) = (Some (py ''hello''), Some (py ''body''))"
    by (simp add: example_env_def)
  have ne: "(py ''hello'') \<noteq> []" "(py ''body'') \<noteq> []" by code_simp+
  have m: "run_mailer example_env
             \<lparr>md_ptt_id = c_author loan_candidate, md_article_id = c_article_id loan_candidate,
              md_article_title = c_title loan_candidate, md_mail_title = (py ''hello''),
              md_mail_content = (py ''body'')\<rparr> = SendReturned True"
    by (simp add: example_env_def)
  have d: "sql_date 100000 = date_today (host_utc_offset example_env) 100000" by code_simp
  from batch_daily_cap [OF lim k1 k2 f1 f2 g1 ne g2 ne, of 100000] m d
  have "fst (process_articles_batch example_env 100000 [loan_candidate, second_candidate] False
          \<lparr>ledger = [], scheduled = []\<rparr>) = \<lparr>processed = 2, skipped = 0, failed = 0\<rparr>"
    and "fst (process_articles_batch example_env 100000 [loan_candidate, second_candidate] True
          \<lparr>ledger = [], scheduled = []\<rparr>) = \<lparr>processed = 1, skipped = 0, failed = 0\<rparr>"
    by simp_all
  with lim k1 k2 d show ?thesis by (intro conjI)
qed

theorem batch_daily_cap_counterexample:
  "DAILY_LIMIT example_env = 1 \<and>
   c_author loan_candidate \<noteq> c_author second_candidate \<and>
   check_article_keywords (lower example_env) (mail_keywords example_env) loan_candidate \<and>
   check_article_keywords (lower example_env) (mail_keywords example_env) second_candidate \<and>
   process_articles_batch example_env 100000 [loan_candidate, second_candidate] False
     \<lparr>ledger = [], scheduled = []\<rparr> =
     (\<lparr>processed = 2, skipped = 0, failed = 0\<rparr>,
      \<lparr>ledger = [],
       scheduled = [\<lparr>md_ptt_id = (py ''u2''), md_article_id = (py ''M.2.A.2''), md_article_title = (py ''loan help''),
                     md_mail_title = (py ''hello''), md_mail_content = (py ''body'')\<rparr>,
                    \<lparr>md_ptt_id = (py ''u3''), md_article_id = (py ''M.3.A.3''), md_article_title = (py ''car loan''),
                     md_mail_title = (py ''hello''), md_mail_content = (py ''body'')\<rparr>]\<rparr>)"
  by code_simp

subsection \<open>Keyword filters\<close>

text \<open>
  C8 (amended). The intake filter \<open>filter_by_keywords\<close> keeps, in feed order, exactly
  the candidates whose title contains one of the configured keywords as written, case
  included; the body is not looked at. \<open>check_article_keywords\<close> of the mail service
  accepts an article exactly when some keyword, lower-cased, occurs in the lower-cased
  text made of the title, a blank and the content.
\<close>

theorem keyword_filters:
  "filter_by_keywords arts kws = filter (\<lambda>a. \<exists>k \<in> set kws. sublist k (c_title a)) arts \<and>
   (check_article_keywords str_lower kws a \<longleftrightarrow>
      (\<exists>k \<in> set kws. sublist (str_lower k) (str_lower (c_title a @ [32] @ c_content a))))"
  by (simp add: filter_by_keywords_filter check_article_keywords_def Let_def keyword_in_text_iff)

theorem keyword_filters_witness:
  "filter_by_keywords [shouting_candidate, loan_candidate, body_candidate] [py ''rate'', py ''loan''] =
     filter (\<lambda>a. \<exists>k \<in> set [py ''rate'', py ''loan'']. sublist k (c_title a))
       [shouting_candidate, loan_candidate, body_candidate] \<and>
   filter_by_keywords [shouting_candidate, loan_candidate, body_candidate] [py ''rate'', py ''loan''] =
     [shouting_candidate, loan_candidate] \<and>
   check_article_keywords ascii_lower [py ''rate'', py ''loan''] body_candidate"
proof -
  have e: "filter_by_keywords [shouting_candidate, loan_candidate, body_candidate]
             [py ''rate'', py ''loan''] = [shouting_candidate, loan_candidate]" by code_simp
  have s: "sublist (ascii_lower (py ''loan''))
             (ascii_lower (c_title body_candidate @ [32] @ c_content body_candidate))" by code_simp
  note k = keyword_filters [of "[shouting_candidate, loan_candidate, body_candidate]"
      "[py ''rate'', py ''loan'']" ascii_lower body_candidate]
  from k s have c: "check_article_keywords ascii_lower [py ''rate'', py ''loan''] body_candidate"
    by simp
  from k e c show ?thesis by (intro conjI) simp_all
qed

text \<open>
  Keyword \<open>loan\<close>: a title \<open>LOAN rates\<close> holds it under case-insensitive comparison,
  and a body \<open>need a loan\<close> holds it as written; the intake filter keeps neither
  candidate.
\<close>

theorem keyword_filter_counterexample:
  "filter_by_keywords [shouting_candidate, body_candidate] [py ''loan''] = [] \<and>
   c_title shouting_candidate = py ''LOAN rates'' \<and>
   ascii_lower (py ''LOAN rates'') = py ''loan rates'' \<and>
   sublist (py ''loan'') (py ''loan rates'') \<and>
   sublist (py ''loan'') (c_content body_candidate)"
  by code_simp

subsection \<open>Retention purge\<close>

text \<open>
  C9. After \<open>delete_old_articles\<close> returns, no article created before the cutoff,
  \<open>RETENTION_DAYS\<close> days before now, remains; no remaining notification references an
  article that was removed, and already the state between the two bulk deletes has no
  notification pointing at an article about to be removed; nothing is added; the
  returned integer is the number of articles removed.
\<close>

theorem delete_old_articles_purges:
  "delete_old_articles cfg db now = (count, db') \<Longrightarrow>
     (\<forall>a \<in> set (articles db'). \<not> a_created_at a < now - RETENTION_DAYS cfg * 86400) \<and>
     (\<forall>n \<in> set (notifications db'). \<forall>a \<in> set (articles db) - set (articles db').
         n_article_id n \<noteq> a_id a) \<and>
     (\<forall>n \<in> set (notifications
                  (delete_notifications_of (map a_id (get_articles_to_delete cfg db now)) db)).
         \<forall>a \<in> set (get_articles_to_delete cfg db now). n_article_id n \<noteq> a_id a) \<and>
     set (articles db') \<subseteq> set (articles db) \<and>
     set (notifications db') \<subseteq> set (notifications db) \<and>
     int count = int (length (articles db)) - int (length (articles db'))"
proof -
  assume run: "delete_old_articles cfg db now = (count, db')"
  define old where "old = filter (\<lambda>a. a_created_at a < cutoff_date cfg now) (articles db)"
  define ids where "ids = map a_id old"
  show ?thesis
  proof (cases "ids = []")
    case True
    then have "old = []" by (simp add: ids_def)
    moreover from True run have "db' = db" "count = 0"
      by (auto simp: delete_old_articles_def ids_def old_def Let_def)
    ultimately show ?thesis
      by (auto simp: old_def filter_empty_conv cutoff_date_def get_articles_to_delete_def
            delete_notifications_of_def)
  next
    case False
    with run have c: "count = length (filter (\<lambda>a. a_id a \<in> set ids) (articles db))"
      and a: "articles db' = filter (\<lambda>a. a_id a \<notin> set ids) (articles db)"
      and n: "notifications db' = filter (\<lambda>n. n_article_id n \<notin> set ids) (notifications db)"
      by (auto simp: delete_old_articles_def ids_def old_def Let_def delete_articles_in_def
            delete_notifications_of_def)
    have 1: "\<forall>a \<in> set (articles db'). \<not> a_created_at a < now - RETENTION_DAYS cfg * 86400"
      using a by (auto simp: ids_def old_def cutoff_date_def)
    have 2: "\<forall>n \<in> set (notifications db'). \<forall>a \<in> set (articles db) - set (articles db').
         n_article_id n \<noteq> a_id a"
      using a n by auto
    have 3: "\<forall>n \<in> set (notifications
                  (delete_notifications_of (map a_id (get_articles_to_delete cfg db now)) db)).
         \<forall>a \<in> set (get_articles_to_delete cfg db now). n_article_id n \<noteq> a_id a"
      by (auto simp: delete_notifications_of_def get_articles_to_delete_def)
    have 4: "int count = int (length (articles db)) - int (length (articles db'))"
      using length_filter_split [of "\<lambda>a. a_id a \<in> set ids" "articles db"] a c by simp
    from 1 2 3 4 a n show ?thesis by auto
  qed
qed


theorem delete_old_articles_purges_witness:
  "delete_old_articles example_cfg example_db 15552011 =
     (1, example_db\<lparr>notifications := [], articles := []\<rparr>) \<and>
   a_created_at (example_article 1) < 15552011 - RETENTION_DAYS example_cfg * 86400 \<and>
   filter (\<lambda>a. a_created_at a < 15552011 - RETENTION_DAYS example_cfg * 86400)
     (articles (example_db\<lparr>notifications := [], articles := []\<rparr>)) = [] \<and>
   set (notifications (example_db\<lparr>notifications := [], articles := []\<rparr>))
     \<subseteq> set (notifications example_db) \<and>
   int 1 = int (length (articles example_db)) -
           int (length (articles (example_db\<lparr>notifications := [], articles := []\<rparr>)))"
proof -
  have h: "delete_old_articles example_cfg example_db 15552011 =
     (1, example_db\<lparr>notifications := [], articles := []\<rparr>)" by code_simp
  have o: "a_created_at (example_article 1) < 15552011 - RETENTION_DAYS example_cfg * 86400"
    by code_simp
  note p = delete_old_articles_purges [OF h]
  from p have 1: "filter (\<lambda>a. a_created_at a < 15552011 - RETENTION_DAYS example_cfg * 86400)
     (articles (example_db\<lparr>notifications := [], articles := []\<rparr>)) = []"
    by (simp add: filter_empty_conv)
  from p have 2: "set (notifications (example_db\<lparr>notifications := [], articles := []\<rparr>))
     \<subseteq> set (notifications example_db)" by blast
  from p have 3: "int 1 = int (length (articles example_db)) -
           int (length (articles (example_db\<lparr>notifications := [], articles := []\<rparr>)))" by blast
  from h o 1 2 3 show ?thesis by (intro conjI)
qed

subsection \<open>Schedule window\<close>

text \<open>
  C10. When the current hour is outside \<open>[SCHEDULE_START_HOUR, SCHEDULE_END_HOUR)\<close>,
  \<open>crawl_and_notify\<close> returns the store and the event log it was given: the feed is
  not fetched, nothing is pushed and no row is written, whatever the feed holds.
\<close>

theorem crawl_and_notify_outside_window:
  "\<not> (SCHEDULE_START_HOUR cfg \<le> hour \<and> hour < SCHEDULE_END_HOUR cfg) \<Longrightarrow>
     crawl_and_notify cfg api feed hour now (db, log) = (db, log)"
  by (simp add: crawl_and_notify_def is_within_schedule_hours_def)


theorem crawl_and_notify_outside_window_witness:
  "\<not> (SCHEDULE_START_HOUR example_cfg \<le> 21 \<and> 21 < SCHEDULE_END_HOUR example_cfg) \<and>
   crawl_and_notify example_cfg (\<lambda>to msg. True) [loan_candidate] 21 100 (example_db, []) =
     (example_db, [])"
proof -
  have h: "\<not> (SCHEDULE_START_HOUR example_cfg \<le> 21 \<and> 21 < SCHEDULE_END_HOUR example_cfg)"
    by code_simp
  from crawl_and_notify_outside_window [OF h] h show ?thesis by blast
qed

end
